theory Spec2Isabelle
  imports Complex_Main
begin

section \<open>Errors and runtime values\<close>

text \<open>
  Every \<^verbatim>\<open>throw new Error(msg)\<close> of the sources is the value \<open>Inl (Error msg)\<close> of a
  result of type \<open>error + 'a\<close>; a normal return of \<open>x\<close> is \<open>Inr x\<close>. The library
  declares no error classes of its own: every failure is a plain \<^verbatim>\<open>Error\<close> that
  carries a message.
\<close>

datatype error = Error (message: string)

text \<open>
  A value of type \<^verbatim>\<open>number\<close> is a double: \<^verbatim>\<open>NaN\<close>, one of the two infinities,
  the negative zero \<^verbatim>\<open>-0\<close>, or a finite number other than \<^verbatim>\<open>-0\<close>, which is given
  by its exact value, a rational (every finite double is one); \<open>Finite 0\<close> is the
  positive zero.
\<close>

datatype jsnum = NaN | Infinity | NegInfinity | NegZero | Finite rat

text \<open>
  The values a container can wrap at run time, as far as the strict comparison
  \<^verbatim>\<open>===\<close> tells them apart. A symbol is its identity. An object is the reference it
  was allocated at together with its properties; two objects with the same properties
  but different references are different objects.
\<close>

datatype jsval =
    Undefined
  | Null
  | Boolean bool
  | Number jsnum
  | BigInt int
  | String string
  | Symbol nat
  | Object (ref: nat) (props: "(string \<times> jsval) list")

text \<open>
  \<^verbatim>\<open>x === y\<close> on two numbers: \<^verbatim>\<open>NaN\<close> is equal to nothing, itself included; the two
  zeros are equal to each other; otherwise the numbers are equal when they are the same
  number.
\<close>

fun number_equal :: "jsnum \<Rightarrow> jsnum \<Rightarrow> bool" where
  "number_equal NaN y = False"
| "number_equal x NaN = False"
| "number_equal NegZero (Finite q) = (q = 0)"
| "number_equal (Finite q) NegZero = (q = 0)"
| "number_equal x y = (x = y)"

text \<open>
  \<^verbatim>\<open>a === b\<close>: numbers are compared as above, objects by reference, every other value
  by type and value.
\<close>

fun strict_eq :: "jsval \<Rightarrow> jsval \<Rightarrow> bool" where
  "strict_eq (Number x) (Number y) = number_equal x y"
| "strict_eq (Object r1 p1) (Object r2 p2) = (r1 = r2)"
| "strict_eq a b = (a = b)"

section \<open>option.ts\<close>

text \<open>
  The abstract class \<^verbatim>\<open>Option<T>\<close> with its two subclasses \<^verbatim>\<open>Some<T>\<close> (one
  read-only field \<^verbatim>\<open>value\<close>) and \<^verbatim>\<open>None<T>\<close> (no field). Each method below is
  the pair of its two overrides, selected by the receiver's class.
\<close>

datatype 'a Option = Some_o 'a | None_o

definition Option_isSome :: "'a Option \<Rightarrow> bool" where
  "Option_isSome this = (case this of Some_o v \<Rightarrow> True | None_o \<Rightarrow> False)"

definition Option_isNone :: "'a Option \<Rightarrow> bool" where
  "Option_isNone this = (case this of Some_o v \<Rightarrow> False | None_o \<Rightarrow> True)"

definition Option_unwrap :: "'a Option \<Rightarrow> error + 'a" where
  "Option_unwrap this =
     (case this of
        Some_o v \<Rightarrow> Inr v
      | None_o \<Rightarrow> Inl (Error ''Called unwrap on a None value.''))"

definition Option_unwrapOrDefault :: "'a Option \<Rightarrow> 'a \<Rightarrow> 'a" where
  "Option_unwrapOrDefault this defaultValue =
     (case this of Some_o v \<Rightarrow> v | None_o \<Rightarrow> defaultValue)"

definition Option_expect :: "'a Option \<Rightarrow> string \<Rightarrow> error + 'a" where
  "Option_expect this msg =
     (case this of
        Some_o v \<Rightarrow> Inr v
      | None_o \<Rightarrow> Inl (Error msg))"

text \<open>\<^verbatim>\<open>get(): T | null\<close>; the \<^verbatim>\<open>null\<close> of the absent case is \<open>None\<close>.\<close>

definition Option_get :: "'a Option \<Rightarrow> 'a option" where
  "Option_get this = (case this of Some_o v \<Rightarrow> Some v | None_o \<Rightarrow> None)"

text \<open>
  \<^verbatim>\<open>Some.equals\<close> is \<^verbatim>\<open>other.isSome() && this.value === other.unwrap()\<close>: the
  right operand of \<^verbatim>\<open>&&\<close> is evaluated only when the left one is true, and an
  exception of \<^verbatim>\<open>unwrap\<close> would leave \<^verbatim>\<open>equals\<close>. \<^verbatim>\<open>None.equals\<close> is
  \<^verbatim>\<open>other.isNone()\<close>. The wrapped values are runtime values, compared by \<^verbatim>\<open>===\<close>.
\<close>

definition Option_equals :: "jsval Option \<Rightarrow> jsval Option \<Rightarrow> error + bool" where
  "Option_equals this other =
     (case this of
        Some_o v \<Rightarrow>
          (if Option_isSome other
           then (case Option_unwrap other of
                   Inl e \<Rightarrow> Inl e
                 | Inr w \<Rightarrow> Inr (strict_eq v w))
           else Inr False)
      | None_o \<Rightarrow> Inr (Option_isNone other))"

text \<open>
  \<^verbatim>\<open>toJSON\<close> returns an object literal. An object is the list of its properties in
  the order they are written; a property holds either a string literal or the wrapped
  value.
\<close>

datatype 'a json = JString string | JValue 'a

definition Option_toJSON :: "'a Option \<Rightarrow> (string \<times> 'a json) list" where
  "Option_toJSON this =
     (case this of
        Some_o v \<Rightarrow> [(''type'', JString ''Some''), (''value'', JValue v)]
      | None_o \<Rightarrow> [(''type'', JString ''None'')])"

section \<open>result.ts\<close>

text \<open>
  The abstract class \<^verbatim>\<open>Result<T, E>\<close> with its subclasses \<^verbatim>\<open>Ok<T, E>\<close> (field
  \<^verbatim>\<open>value\<close>) and \<^verbatim>\<open>Err<T, E>\<close> (field \<^verbatim>\<open>error\<close>).
\<close>

datatype ('a, 'e) Result = Ok 'a | Err 'e

definition Result_isOk :: "('a, 'e) Result \<Rightarrow> bool" where
  "Result_isOk this = (case this of Ok v \<Rightarrow> True | Err e \<Rightarrow> False)"

definition Result_isErr :: "('a, 'e) Result \<Rightarrow> bool" where
  "Result_isErr this = (case this of Ok v \<Rightarrow> False | Err e \<Rightarrow> True)"

definition Result_unwrap :: "('a, 'e) Result \<Rightarrow> error + 'a" where
  "Result_unwrap this =
     (case this of
        Ok v \<Rightarrow> Inr v
      | Err e \<Rightarrow> Inl (Error ''Called unwrap on an error.''))"

definition Result_unwrapOrDefault :: "('a, 'e) Result \<Rightarrow> 'a \<Rightarrow> 'a" where
  "Result_unwrapOrDefault this defaultValue =
     (case this of Ok v \<Rightarrow> v | Err e \<Rightarrow> defaultValue)"

definition Result_expect :: "('a, 'e) Result \<Rightarrow> string \<Rightarrow> error + 'a" where
  "Result_expect this msg =
     (case this of
        Ok v \<Rightarrow> Inr v
      | Err e \<Rightarrow> Inl (Error msg))"

definition Result_getErr :: "('a, 'e) Result \<Rightarrow> error + 'e" where
  "Result_getErr this =
     (case this of
        Ok v \<Rightarrow> Inl (Error ''Called getErr on an Ok value.'')
      | Err e \<Rightarrow> Inr e)"

text \<open>
  The argument of \<^verbatim>\<open>map\<close> and \<^verbatim>\<open>flatMap\<close> is a function supplied by the caller. A
  call of it may read and change the caller's state \<open>'s\<close> and either throws or
  returns, so it is a function from the state before the call to the outcome and the
  state after it; an exception it throws leaves the method that called it. A method
  that does not call the function returns the state it was given.
\<close>

type_synonym ('s, 'r) outcome = "'s \<Rightarrow> (error + 'r) \<times> 's"

definition Result_map ::
  "('a \<Rightarrow> ('s, 'b) outcome) \<Rightarrow> ('a, 'e) Result \<Rightarrow> ('s, ('b, 'e) Result) outcome" where
  "Result_map fn this s =
     (case this of
        Ok v \<Rightarrow>
          (case fn v s of
             (Inl x, s') \<Rightarrow> (Inl x, s')
           | (Inr u, s') \<Rightarrow> (Inr (Ok u), s'))
      | Err e \<Rightarrow>
          (case Result_getErr this of
             Inl x \<Rightarrow> (Inl x, s)
           | Inr e' \<Rightarrow> (Inr (Err e'), s)))"

definition Result_flatMap ::
  "('a \<Rightarrow> ('s, ('b, 'e) Result) outcome) \<Rightarrow> ('a, 'e) Result \<Rightarrow> ('s, ('b, 'e) Result) outcome" where
  "Result_flatMap fn this s =
     (case this of
        Ok v \<Rightarrow> fn v s
      | Err e \<Rightarrow>
          (case Result_getErr this of
             Inl x \<Rightarrow> (Inl x, s)
           | Inr e' \<Rightarrow> (Inr (Err e'), s)))"

section \<open>iterator.ts\<close>

subsection \<open>Arrays\<close>

text \<open>
  An array read \<^verbatim>\<open>xs[i]\<close> at an index that is not below the length yields
  \<^verbatim>\<open>undefined\<close> and does not throw: the result of a read is \<open>None\<close> for
  \<^verbatim>\<open>undefined\<close> and \<open>Some\<close> of the element otherwise.
\<close>

definition array_get :: "'a list \<Rightarrow> nat \<Rightarrow> 'a option" where
  "array_get xs i = (if i < length xs then Some (xs ! i) else None)"

text \<open>
  \<^verbatim>\<open>xs.slice(start, end)\<close> for integer arguments: a negative argument counts from the
  end of the array, both are clamped to \<open>[0, length]\<close>, and a missing \<^verbatim>\<open>end\<close> is the
  length. The result is a new array.
\<close>

definition slice :: "'a list \<Rightarrow> int \<Rightarrow> int option \<Rightarrow> 'a list" where
  "slice xs start fin =
     (let len = int (length xs);
          k = (if start < 0 then max (len + start) 0 else min start len);
          final = (case fin of
                     None \<Rightarrow> len
                   | Some e \<Rightarrow> if e < 0 then max (len + e) 0 else min e len)
      in take (nat (final - k)) (drop (nat k) xs))"

text \<open>
  \<^verbatim>\<open>xs.map((value, index) => ...)\<close> and \<^verbatim>\<open>xs.forEach((value, index) => ...)\<close> pass
  each element with its position, from the front.
\<close>

definition map_indexed :: "('a \<Rightarrow> nat \<Rightarrow> 'b) \<Rightarrow> 'a list \<Rightarrow> 'b list" where
  "map_indexed f xs = map (\<lambda>(i, v). f v i) (List.enumerate 0 xs)"

definition forEach_indexed :: "('r \<Rightarrow> 'a \<Rightarrow> nat \<Rightarrow> 'r) \<Rightarrow> 'r \<Rightarrow> 'a list \<Rightarrow> 'r" where
  "forEach_indexed body init xs = foldl (\<lambda>acc (i, v). body acc v i) init (List.enumerate 0 xs)"

subsection \<open>The class\<close>

text \<open>
  \<^verbatim>\<open>class Iterator<T> { private index = 0; constructor(private items: T[]) {} }\<close>.
  The cursor starts at 0 and is only ever incremented or set to 0, so it is a natural
  number.
\<close>

record 'a Iterator =
  items :: "'a list"
  index :: nat

definition new_Iterator :: "'a list \<Rightarrow> 'a Iterator" where
  "new_Iterator xs = \<lparr>items = xs, index = 0\<rparr>"

definition Iterator_from :: "'a list \<Rightarrow> 'a Iterator" where
  "Iterator_from xs = new_Iterator xs"

text \<open>
  The arguments of \<^verbatim>\<open>range\<close> are numbers, that is doubles; the model covers the
  integer-valued ones. \<open>js_incr i\<close> is the value of \<^verbatim>\<open>i\<close> after \<^verbatim>\<open>i++\<close>: the double
  nearest to \<open>i + 1\<close>, ties going to the even significand. From \<open>-2^53\<close> up to
  \<open>2^53 - 1\<close> that is \<open>i + 1\<close>. Between \<open>2^53\<close> and \<open>2^54\<close> in absolute value the
  doubles are the even integers and \<open>i + 1\<close> lies half way between \<open>i\<close> and \<open>i + 2\<close>.
  Beyond that \<open>i\<close> is the nearest double.
\<close>

definition js_incr :: "int \<Rightarrow> int" where
  "js_incr i =
     (if - (2 ^ 53) \<le> i \<and> i < 2 ^ 53 then i + 1
      else if - (2 ^ 54) \<le> i \<and> i < 2 ^ 54 then (if even (i div 2) then i else i + 2)
      else i)"

text \<open>
  The loop \<^verbatim>\<open>for (let i = start; i < end; i++) items.push(i)\<close> of \<^verbatim>\<open>range\<close>. It
  does not return when \<^verbatim>\<open>i++\<close> stops increasing \<^verbatim>\<open>i\<close> below \<^verbatim>\<open>end\<close>, which is the
  result \<open>None\<close>.
\<close>

partial_function (option) range_loop :: "int \<Rightarrow> int \<Rightarrow> int list \<Rightarrow> int list option" where
  "range_loop i fin acc =
     (if i < fin then range_loop (js_incr i) fin (acc @ [i]) else Some acc)"

declare range_loop.simps [code]

text \<open>
  \<^verbatim>\<open>range(start, end?)\<close>: when \<^verbatim>\<open>end\<close> is \<^verbatim>\<open>undefined\<close> the single argument is the
  end and the start is 0.
\<close>

definition Iterator_range :: "int \<Rightarrow> int option \<Rightarrow> int Iterator option" where
  "Iterator_range start fin =
     (case fin of
        None \<Rightarrow> map_option new_Iterator (range_loop 0 start [])
      | Some e \<Rightarrow> map_option new_Iterator (range_loop start e []))"

subsection \<open>Cursor methods\<close>

definition Iterator_hasNext :: "'a Iterator \<Rightarrow> bool" where
  "Iterator_hasNext this = (index this < length (items this))"

text \<open>
  \<^verbatim>\<open>return this.items[this.index++]\<close>: the element at the cursor (or \<^verbatim>\<open>undefined\<close>)
  and the receiver with the cursor incremented. There is no bounds check.
\<close>

definition Iterator_next :: "'a Iterator \<Rightarrow> 'a option \<times> 'a Iterator" where
  "Iterator_next this = (array_get (items this) (index this), this\<lparr>index := index this + 1\<rparr>)"

definition Iterator_peek :: "'a Iterator \<Rightarrow> 'a option" where
  "Iterator_peek this = array_get (items this) (index this)"

text \<open>
  \<^verbatim>\<open>peekAt\<close> throws outside \<open>[0, length)\<close>. The message holds the index as the
  template literal \<^verbatim>\<open>${index}\<close> prints it; \<open>toString\<close> is that conversion of the
  runtime, a parameter here.
\<close>

definition Iterator_peekAt :: "(int \<Rightarrow> string) \<Rightarrow> 'a Iterator \<Rightarrow> int \<Rightarrow> error + 'a" where
  "Iterator_peekAt toString this i =
     (if i < 0 \<or> i \<ge> int (length (items this))
      then Inl (Error (''Index out of bounds: '' @ toString i))
      else Inr (items this ! nat i))"

definition Iterator_reset :: "'a Iterator \<Rightarrow> 'a Iterator" where
  "Iterator_reset this = this\<lparr>index := 0\<rparr>"

subsection \<open>Pipeline and terminal methods\<close>

text \<open>
  None of the methods below reads or assigns \<^verbatim>\<open>this.index\<close>, assigns
  \<^verbatim>\<open>this.items\<close> or calls a mutating array method on it (\<^verbatim>\<open>map\<close>, \<^verbatim>\<open>filter\<close>,
  \<^verbatim>\<open>slice\<close> and \<^verbatim>\<open>concat\<close> build a new array), so each is a function of the
  receiver that leaves the receiver as it was. The functions passed in are pure.
\<close>

definition Iterator_map :: "'a Iterator \<Rightarrow> ('a \<Rightarrow> 'b) \<Rightarrow> 'b Iterator" where
  "Iterator_map this fn = new_Iterator (map fn (items this))"

definition Iterator_filter :: "'a Iterator \<Rightarrow> ('a \<Rightarrow> bool) \<Rightarrow> 'a Iterator" where
  "Iterator_filter this predicate = new_Iterator (filter predicate (items this))"

text \<open>\<^verbatim>\<open>this.items.find(predicate) ?? null\<close>; \<open>None\<close> is the \<^verbatim>\<open>null\<close>.\<close>

definition Iterator_find :: "'a Iterator \<Rightarrow> ('a \<Rightarrow> bool) \<Rightarrow> 'a option" where
  "Iterator_find this predicate = List.find predicate (items this)"

text \<open>
  \<^verbatim>\<open>collect(fn?)\<close> is \<^verbatim>\<open>fn ? this.items.map(fn) : this.items\<close>, of type
  \<^verbatim>\<open>U[] | T[]\<close>: \<open>Iterator_collect\<close> is the call without an argument, which returns
  the backing array itself, and \<open>Iterator_collect_map\<close> the call with a function.
\<close>

definition Iterator_collect :: "'a Iterator \<Rightarrow> 'a list" where
  "Iterator_collect this = items this"

definition Iterator_collect_map :: "'a Iterator \<Rightarrow> ('a \<Rightarrow> 'b) \<Rightarrow> 'b list" where
  "Iterator_collect_map this fn = map fn (items this)"

definition Iterator_reduce :: "'a Iterator \<Rightarrow> ('u \<Rightarrow> 'a \<Rightarrow> 'u) \<Rightarrow> 'u \<Rightarrow> 'u" where
  "Iterator_reduce this fn initialValue = foldl fn initialValue (items this)"

definition Iterator_count :: "'a Iterator \<Rightarrow> ('a \<Rightarrow> bool) option \<Rightarrow> nat" where
  "Iterator_count this predicate =
     (case predicate of
        Some p \<Rightarrow> length (filter p (items this))
      | None \<Rightarrow> length (items this))"

definition Iterator_any :: "'a Iterator \<Rightarrow> ('a \<Rightarrow> bool) \<Rightarrow> bool" where
  "Iterator_any this predicate = list_ex predicate (items this)"

definition Iterator_all :: "'a Iterator \<Rightarrow> ('a \<Rightarrow> bool) \<Rightarrow> bool" where
  "Iterator_all this predicate = list_all predicate (items this)"

definition Iterator_chain :: "'a Iterator \<Rightarrow> ('a \<Rightarrow> 'b Iterator) \<Rightarrow> 'b Iterator" where
  "Iterator_chain this fn =
     new_Iterator
       (foldl (\<lambda>result v. result @ Iterator_collect_map (fn v) (\<lambda>w. w)) [] (items this))"

definition Iterator_skip :: "'a Iterator \<Rightarrow> int \<Rightarrow> 'a Iterator" where
  "Iterator_skip this n = new_Iterator (slice (items this) n None)"

definition Iterator_take :: "'a Iterator \<Rightarrow> int \<Rightarrow> 'a Iterator" where
  "Iterator_take this n = new_Iterator (slice (items this) 0 (Some n))"

text \<open>
  The loop \<^verbatim>\<open>let index = 0; while (predicate(this.items[index])) { index++; }\<close>
  shared by \<^verbatim>\<open>skipWhile\<close>, \<^verbatim>\<open>takeWhile\<close>, \<^verbatim>\<open>collectWhile\<close> and
  \<^verbatim>\<open>collectUntil\<close>. It has no bound: past the end of the array the predicate is
  applied to \<^verbatim>\<open>undefined\<close>, so the predicate takes the result of an array read, and
  the loop may run forever, which is the result \<open>None\<close>.
\<close>

partial_function (option) scan_while :: "('a option \<Rightarrow> bool) \<Rightarrow> 'a list \<Rightarrow> nat \<Rightarrow> nat option" where
  "scan_while predicate xs i =
     (if predicate (array_get xs i) then scan_while predicate xs (i + 1) else Some i)"

declare scan_while.simps [code]

definition Iterator_skipWhile :: "'a Iterator \<Rightarrow> ('a option \<Rightarrow> bool) \<Rightarrow> 'a Iterator option" where
  "Iterator_skipWhile this predicate =
     (case scan_while predicate (items this) 0 of
        None \<Rightarrow> None
      | Some i \<Rightarrow> Some (new_Iterator (slice (items this) (int i) None)))"

definition Iterator_takeWhile :: "'a Iterator \<Rightarrow> ('a option \<Rightarrow> bool) \<Rightarrow> 'a Iterator option" where
  "Iterator_takeWhile this predicate =
     (case scan_while predicate (items this) 0 of
        None \<Rightarrow> None
      | Some i \<Rightarrow> Some (new_Iterator (slice (items this) 0 (Some (int i)))))"

definition Iterator_enumerate :: "'a Iterator \<Rightarrow> (nat \<times> 'a) Iterator" where
  "Iterator_enumerate this = new_Iterator (map_indexed (\<lambda>v i. (i, v)) (items this))"

text \<open>
  The pairing methods read \<^verbatim>\<open>other.items[index]\<close> for every index of the
  receiver's array, so the second component of a pair is the result of an array read.
\<close>

definition Iterator_zip :: "'a Iterator \<Rightarrow> 'b Iterator \<Rightarrow> ('a \<times> 'b option) Iterator" where
  "Iterator_zip this other =
     new_Iterator (map_indexed (\<lambda>v i. (v, array_get (items other) i)) (items this))"

definition Iterator_chainWith :: "'a Iterator \<Rightarrow> 'b Iterator \<Rightarrow> ('a \<times> 'b option) Iterator" where
  "Iterator_chainWith this other =
     new_Iterator
       (forEach_indexed (\<lambda>result v i. result @ [(v, array_get (items other) i)]) [] (items this))"

definition Iterator_collectInto ::
  "'a Iterator \<Rightarrow> 'b Iterator \<Rightarrow> ('a \<Rightarrow> 'b option \<Rightarrow> 'c) \<Rightarrow> 'c list" where
  "Iterator_collectInto this other fn =
     forEach_indexed (\<lambda>result v i. result @ [fn v (array_get (items other) i)]) [] (items this)"

definition Iterator_collectWith :: "'a Iterator \<Rightarrow> 'b Iterator \<Rightarrow> ('a \<times> 'b option) list" where
  "Iterator_collectWith this other =
     forEach_indexed (\<lambda>result v i. result @ [(v, array_get (items other) i)]) [] (items this)"

definition Iterator_collectWhile :: "'a Iterator \<Rightarrow> ('a option \<Rightarrow> bool) \<Rightarrow> 'a list option" where
  "Iterator_collectWhile this predicate =
     (case scan_while predicate (items this) 0 of
        None \<Rightarrow> None
      | Some i \<Rightarrow> Some (slice (items this) 0 (Some (int i))))"

definition Iterator_collectUntil :: "'a Iterator \<Rightarrow> ('a option \<Rightarrow> bool) \<Rightarrow> 'a list option" where
  "Iterator_collectUntil this predicate =
     (case scan_while (\<lambda>v. \<not> predicate v) (items this) 0 of
        None \<Rightarrow> None
      | Some i \<Rightarrow> Some (slice (items this) 0 (Some (int i))))"

subsection \<open>Sequences of cursor calls on one receiver\<close>

text \<open>
  The methods that read or write the cursor. \<open>call m this\<close> is the receiver after the
  call \<open>m\<close>; only \<^verbatim>\<open>next\<close> and \<^verbatim>\<open>reset\<close> assign a field. \<^verbatim>\<open>peekAt\<close> leaves the
  receiver as it was also when it throws.
\<close>

datatype method_call = HasNext | Next | Peek | PeekAt int | Reset

fun call :: "method_call \<Rightarrow> 'a Iterator \<Rightarrow> 'a Iterator" where
  "call Next this = snd (Iterator_next this)"
| "call Reset this = Iterator_reset this"
| "call HasNext this = this"
| "call Peek this = this"
| "call (PeekAt i) this = this"

fun run :: "method_call list \<Rightarrow> 'a Iterator \<Rightarrow> 'a Iterator" where
  "run [] this = this"
| "run (m # ms) this = run ms (call m this)"

subsection \<open>The class on a store of arrays and objects\<close>

text \<open>
  In the definitions above an array is its list of elements and a sequence is a record
  of values. Here arrays and \<^verbatim>\<open>Iterator\<close> objects are allocated in a store and are
  referred to by their addresses, so that two references to one array or one object
  are told apart from two equal copies, and what a method leaves unchanged is a fact
  about the store it returns.

  An element of an array is a value of the caller (\<open>Value\<close>), \<^verbatim>\<open>undefined\<close>, a number
  (the numbers that \<^verbatim>\<open>range\<close> and \<^verbatim>\<open>enumerate\<close> write) or a reference to an array
  (the two-element arrays that \<^verbatim>\<open>enumerate\<close> and the pairing methods build).
\<close>

datatype 'p elem = Value 'p | Undefined_e | Number_e int | Array_e nat

text \<open>
  An \<^verbatim>\<open>Iterator\<close> object: its field \<^verbatim>\<open>items\<close> holds a reference to an array, its field
  \<^verbatim>\<open>index\<close> the cursor.
\<close>

record iterator_o =
  items_o :: nat
  index_o :: nat

text \<open>
  The address of an array or of an object is its position in the store. Allocation adds
  at the end. An array that a method fills with \<^verbatim>\<open>push\<close> before it hands it on is
  allocated with the elements it then has. Arrays that a method builds and drops before
  it returns (the intermediate results of \<^verbatim>\<open>concat\<close> in \<^verbatim>\<open>chain\<close>, the filtered array
  of \<^verbatim>\<open>count\<close>) are not kept.
\<close>

record 'p store =
  arrays :: "'p elem list list"
  iterators :: "iterator_o list"

text \<open>
  \<open>new_Array\<close> is an array literal or a library call that returns a new array
  (\<^verbatim>\<open>map\<close>, \<^verbatim>\<open>filter\<close>, \<^verbatim>\<open>slice\<close>, \<^verbatim>\<open>concat\<close>); \<open>new_Arrays\<close> allocates several in
  order; \<open>new_Iterator_o a\<close> is \<^verbatim>\<open>new Iterator(a)\<close> for a reference \<open>a\<close>.
\<close>

definition new_Array :: "'p elem list \<Rightarrow> 'p store \<Rightarrow> nat \<times> 'p store" where
  "new_Array xs st = (length (arrays st), st\<lparr>arrays := arrays st @ [xs]\<rparr>)"

definition new_Arrays :: "'p elem list list \<Rightarrow> 'p store \<Rightarrow> nat list \<times> 'p store" where
  "new_Arrays xss st =
     ([length (arrays st)..<length (arrays st) + length xss], st\<lparr>arrays := arrays st @ xss\<rparr>)"

definition new_Iterator_o :: "nat \<Rightarrow> 'p store \<Rightarrow> nat \<times> 'p store" where
  "new_Iterator_o a st =
     (length (iterators st), st\<lparr>iterators := iterators st @ [\<lparr>items_o = a, index_o = 0\<rparr>]\<rparr>)"

text \<open>
  \<open>this_items st this\<close> is the array that \<^verbatim>\<open>this.items\<close> refers to, \<open>this_index\<close> the
  value of \<^verbatim>\<open>this.index\<close>, \<open>set_index\<close> an assignment to \<^verbatim>\<open>this.index\<close>.
\<close>

definition this_items :: "'p store \<Rightarrow> nat \<Rightarrow> 'p elem list" where
  "this_items st this = arrays st ! items_o (iterators st ! this)"

definition this_index :: "'p store \<Rightarrow> nat \<Rightarrow> nat" where
  "this_index st this = index_o (iterators st ! this)"

definition set_index :: "nat \<Rightarrow> nat \<Rightarrow> 'p store \<Rightarrow> 'p store" where
  "set_index this i st =
     st\<lparr>iterators := (iterators st)[this := (iterators st ! this)\<lparr>index_o := i\<rparr>]\<rparr>"

text \<open>
  An array read, with \<^verbatim>\<open>undefined\<close> past the end; \<open>on_read\<close> applies a predicate of
  the caller to the result of a read in the form \<open>scan_while\<close> passes it.
\<close>

definition elem_get :: "'p elem list \<Rightarrow> nat \<Rightarrow> 'p elem" where
  "elem_get xs i = (case array_get xs i of None \<Rightarrow> Undefined_e | Some v \<Rightarrow> v)"

definition on_read :: "('p elem \<Rightarrow> bool) \<Rightarrow> 'p elem option \<Rightarrow> bool" where
  "on_read predicate r = predicate (case r of None \<Rightarrow> Undefined_e | Some v \<Rightarrow> v)"

text \<open>
  The methods. Each takes the store and returns its result with the store it leaves; a
  method that may not return has an optional result. \<^verbatim>\<open>from\<close> stores the reference it
  is given, so the new sequence shares the caller's array. The functions passed in are
  pure; the function passed to \<^verbatim>\<open>chain\<close> is given by the items of the sequence it
  returns.
\<close>

definition Iterator_from_o :: "nat \<Rightarrow> 'p store \<Rightarrow> nat \<times> 'p store" where
  "Iterator_from_o a st = new_Iterator_o a st"

definition Iterator_range_o :: "int \<Rightarrow> int option \<Rightarrow> 'p store \<Rightarrow> (nat \<times> 'p store) option" where
  "Iterator_range_o start fin st =
     (case (case fin of None \<Rightarrow> range_loop 0 start [] | Some e \<Rightarrow> range_loop start e []) of
        None \<Rightarrow> None
      | Some ns \<Rightarrow> Some (let (a, st1) = new_Array (map Number_e ns) st in new_Iterator_o a st1))"

definition Iterator_hasNext_o :: "nat \<Rightarrow> 'p store \<Rightarrow> bool \<times> 'p store" where
  "Iterator_hasNext_o this st = (this_index st this < length (this_items st this), st)"

definition Iterator_next_o :: "nat \<Rightarrow> 'p store \<Rightarrow> 'p elem \<times> 'p store" where
  "Iterator_next_o this st =
     (elem_get (this_items st this) (this_index st this),
      set_index this (this_index st this + 1) st)"

definition Iterator_peek_o :: "nat \<Rightarrow> 'p store \<Rightarrow> 'p elem \<times> 'p store" where
  "Iterator_peek_o this st = (elem_get (this_items st this) (this_index st this), st)"

definition Iterator_peekAt_o ::
  "(int \<Rightarrow> string) \<Rightarrow> nat \<Rightarrow> int \<Rightarrow> 'p store \<Rightarrow> (error + 'p elem) \<times> 'p store" where
  "Iterator_peekAt_o toString this i st =
     (if i < 0 \<or> i \<ge> int (length (this_items st this))
      then (Inl (Error (''Index out of bounds: '' @ toString i)), st)
      else (Inr (this_items st this ! nat i), st))"

definition Iterator_reset_o :: "nat \<Rightarrow> 'p store \<Rightarrow> unit \<times> 'p store" where
  "Iterator_reset_o this st = ((), set_index this 0 st)"

definition Iterator_map_o :: "nat \<Rightarrow> ('p elem \<Rightarrow> 'p elem) \<Rightarrow> 'p store \<Rightarrow> nat \<times> 'p store" where
  "Iterator_map_o this fn st =
     (let (a, st1) = new_Array (map fn (this_items st this)) st in new_Iterator_o a st1)"

definition Iterator_filter_o :: "nat \<Rightarrow> ('p elem \<Rightarrow> bool) \<Rightarrow> 'p store \<Rightarrow> nat \<times> 'p store" where
  "Iterator_filter_o this predicate st =
     (let (a, st1) = new_Array (filter predicate (this_items st this)) st in new_Iterator_o a st1)"

text \<open>
  \<^verbatim>\<open>this.items.find(predicate) ?? null\<close>: \<open>None\<close> is the \<^verbatim>\<open>null\<close>, also returned
  when the element found is \<^verbatim>\<open>undefined\<close>.
\<close>

definition Iterator_find_o :: "nat \<Rightarrow> ('p elem \<Rightarrow> bool) \<Rightarrow> 'p store \<Rightarrow> 'p elem option \<times> 'p store" where
  "Iterator_find_o this predicate st =
     (case List.find predicate (this_items st this) of
        None \<Rightarrow> (None, st)
      | Some v \<Rightarrow> (if v = Undefined_e then None else Some v, st))"

definition Iterator_forEach_o :: "nat \<Rightarrow> ('p elem \<Rightarrow> unit) \<Rightarrow> 'p store \<Rightarrow> unit \<times> 'p store" where
  "Iterator_forEach_o this fn st = (foldl (\<lambda>u v. fn v) () (this_items st this), st)"

text \<open>
  \<^verbatim>\<open>collect()\<close> without a function returns \<^verbatim>\<open>this.items\<close>, the reference itself;
  with a function it returns a new array.
\<close>

definition Iterator_collect_o :: "nat \<Rightarrow> 'p store \<Rightarrow> nat \<times> 'p store" where
  "Iterator_collect_o this st = (items_o (iterators st ! this), st)"

definition Iterator_collect_map_o :: "nat \<Rightarrow> ('p elem \<Rightarrow> 'p elem) \<Rightarrow> 'p store \<Rightarrow> nat \<times> 'p store" where
  "Iterator_collect_map_o this fn st = new_Array (map fn (this_items st this)) st"

definition Iterator_reduce_o :: "nat \<Rightarrow> ('u \<Rightarrow> 'p elem \<Rightarrow> 'u) \<Rightarrow> 'u \<Rightarrow> 'p store \<Rightarrow> 'u \<times> 'p store" where
  "Iterator_reduce_o this fn initialValue st = (foldl fn initialValue (this_items st this), st)"

definition Iterator_count_o :: "nat \<Rightarrow> ('p elem \<Rightarrow> bool) option \<Rightarrow> 'p store \<Rightarrow> nat \<times> 'p store" where
  "Iterator_count_o this predicate st =
     (case predicate of
        Some p \<Rightarrow> (length (filter p (this_items st this)), st)
      | None \<Rightarrow> (length (this_items st this), st))"

definition Iterator_any_o :: "nat \<Rightarrow> ('p elem \<Rightarrow> bool) \<Rightarrow> 'p store \<Rightarrow> bool \<times> 'p store" where
  "Iterator_any_o this predicate st = (list_ex predicate (this_items st this), st)"

definition Iterator_all_o :: "nat \<Rightarrow> ('p elem \<Rightarrow> bool) \<Rightarrow> 'p store \<Rightarrow> bool \<times> 'p store" where
  "Iterator_all_o this predicate st = (list_all predicate (this_items st this), st)"

definition Iterator_chain_o :: "nat \<Rightarrow> ('p elem \<Rightarrow> 'p elem list) \<Rightarrow> 'p store \<Rightarrow> nat \<times> 'p store" where
  "Iterator_chain_o this fn st =
     (let (a, st1) =
        new_Array (foldl (\<lambda>result v. result @ map (\<lambda>w. w) (fn v)) [] (this_items st this)) st
      in new_Iterator_o a st1)"

definition Iterator_skip_o :: "nat \<Rightarrow> int \<Rightarrow> 'p store \<Rightarrow> nat \<times> 'p store" where
  "Iterator_skip_o this n st =
     (let (a, st1) = new_Array (slice (this_items st this) n None) st in new_Iterator_o a st1)"

definition Iterator_take_o :: "nat \<Rightarrow> int \<Rightarrow> 'p store \<Rightarrow> nat \<times> 'p store" where
  "Iterator_take_o this n st =
     (let (a, st1) = new_Array (slice (this_items st this) 0 (Some n)) st in new_Iterator_o a st1)"

definition Iterator_skipWhile_o ::
  "nat \<Rightarrow> ('p elem \<Rightarrow> bool) \<Rightarrow> 'p store \<Rightarrow> (nat \<times> 'p store) option" where
  "Iterator_skipWhile_o this predicate st =
     (case scan_while (on_read predicate) (this_items st this) 0 of
        None \<Rightarrow> None
      | Some i \<Rightarrow>
          Some (let (a, st1) = new_Array (slice (this_items st this) (int i) None) st
                in new_Iterator_o a st1))"

definition Iterator_takeWhile_o ::
  "nat \<Rightarrow> ('p elem \<Rightarrow> bool) \<Rightarrow> 'p store \<Rightarrow> (nat \<times> 'p store) option" where
  "Iterator_takeWhile_o this predicate st =
     (case scan_while (on_read predicate) (this_items st this) 0 of
        None \<Rightarrow> None
      | Some i \<Rightarrow>
          Some (let (a, st1) = new_Array (slice (this_items st this) 0 (Some (int i))) st
                in new_Iterator_o a st1))"

definition Iterator_enumerate_o :: "nat \<Rightarrow> 'p store \<Rightarrow> nat \<times> 'p store" where
  "Iterator_enumerate_o this st =
     (let (rs, st1) = new_Arrays (map_indexed (\<lambda>v i. [Number_e (int i), v]) (this_items st this)) st;
          (a, st2) = new_Array (map Array_e rs) st1
      in new_Iterator_o a st2)"

definition Iterator_zip_o :: "nat \<Rightarrow> nat \<Rightarrow> 'p store \<Rightarrow> nat \<times> 'p store" where
  "Iterator_zip_o this other st =
     (let (rs, st1) =
        new_Arrays (map_indexed (\<lambda>v i. [v, elem_get (this_items st other) i]) (this_items st this)) st;
          (a, st2) = new_Array (map Array_e rs) st1
      in new_Iterator_o a st2)"

definition Iterator_chainWith_o :: "nat \<Rightarrow> nat \<Rightarrow> 'p store \<Rightarrow> nat \<times> 'p store" where
  "Iterator_chainWith_o this other st =
     (let (rs, st1) =
        new_Arrays
          (forEach_indexed (\<lambda>result v i. result @ [[v, elem_get (this_items st other) i]]) []
             (this_items st this)) st;
          (a, st2) = new_Array (map Array_e rs) st1
      in new_Iterator_o a st2)"

definition Iterator_collectInto_o ::
  "nat \<Rightarrow> nat \<Rightarrow> ('p elem \<Rightarrow> 'p elem \<Rightarrow> 'p elem) \<Rightarrow> 'p store \<Rightarrow> nat \<times> 'p store" where
  "Iterator_collectInto_o this other fn st =
     new_Array
       (forEach_indexed (\<lambda>result v i. result @ [fn v (elem_get (this_items st other) i)]) []
          (this_items st this)) st"

definition Iterator_collectWith_o :: "nat \<Rightarrow> nat \<Rightarrow> 'p store \<Rightarrow> nat \<times> 'p store" where
  "Iterator_collectWith_o this other st =
     (let (rs, st1) =
        new_Arrays
          (forEach_indexed (\<lambda>result v i. result @ [[v, elem_get (this_items st other) i]]) []
             (this_items st this)) st
      in new_Array (map Array_e rs) st1)"

definition Iterator_collectWhile_o ::
  "nat \<Rightarrow> ('p elem \<Rightarrow> bool) \<Rightarrow> 'p store \<Rightarrow> (nat \<times> 'p store) option" where
  "Iterator_collectWhile_o this predicate st =
     (case scan_while (on_read predicate) (this_items st this) 0 of
        None \<Rightarrow> None
      | Some i \<Rightarrow> Some (new_Array (slice (this_items st this) 0 (Some (int i))) st))"

definition Iterator_collectUntil_o ::
  "nat \<Rightarrow> ('p elem \<Rightarrow> bool) \<Rightarrow> 'p store \<Rightarrow> (nat \<times> 'p store) option" where
  "Iterator_collectUntil_o this predicate st =
     (case scan_while (on_read (\<lambda>v. \<not> predicate v)) (this_items st this) 0 of
        None \<Rightarrow> None
      | Some i \<Rightarrow> Some (new_Array (slice (this_items st this) 0 (Some (int i))) st))"

subsection \<open>Sequences of calls on a store\<close>

text \<open>
  A call of a method, with the receiver (and the other sequence of a pairing method)
  as the address of an object, and the two static methods.
\<close>

datatype 'p invocation =
    From_o nat
  | Range_o int "int option"
  | HasNext_o nat
  | Next_o nat
  | Peek_o nat
  | PeekAt_o nat int
  | Reset_o nat
  | Map_o nat "'p elem \<Rightarrow> 'p elem"
  | Filter_o nat "'p elem \<Rightarrow> bool"
  | Find_o nat "'p elem \<Rightarrow> bool"
  | ForEach_o nat "'p elem \<Rightarrow> unit"
  | Collect_o nat
  | CollectMap_o nat "'p elem \<Rightarrow> 'p elem"
  | Reduce_o nat "'p elem \<Rightarrow> 'p elem \<Rightarrow> 'p elem" "'p elem"
  | Count_o nat "('p elem \<Rightarrow> bool) option"
  | Any_o nat "'p elem \<Rightarrow> bool"
  | All_o nat "'p elem \<Rightarrow> bool"
  | Chain_o nat "'p elem \<Rightarrow> 'p elem list"
  | Skip_o nat int
  | Take_o nat int
  | SkipWhile_o nat "'p elem \<Rightarrow> bool"
  | TakeWhile_o nat "'p elem \<Rightarrow> bool"
  | Enumerate_o nat
  | Zip_o nat nat
  | ChainWith_o nat nat
  | CollectInto_o nat nat "'p elem \<Rightarrow> 'p elem \<Rightarrow> 'p elem"
  | CollectWith_o nat nat
  | CollectWhile_o nat "'p elem \<Rightarrow> bool"
  | CollectUntil_o nat "'p elem \<Rightarrow> bool"

text \<open>
  \<open>receivers c\<close> are the objects the call refers to. \<open>effect ts c st\<close> is the store the
  method of the call \<open>c\<close> leaves, \<open>None\<close> when it does not return. A call is
  \<open>allocated\<close> when the objects (for \<^verbatim>\<open>from\<close>, the array) it refers to exist; \<open>step\<close>
  is the effect of an allocated call. \<open>ts\<close> is the conversion \<open>toString\<close> of
  \<^verbatim>\<open>peekAt\<close>.
\<close>

fun receivers :: "'p invocation \<Rightarrow> nat list" where
  "receivers (From_o a) = []"
| "receivers (Range_o start fin) = []"
| "receivers (HasNext_o t) = [t]"
| "receivers (Next_o t) = [t]"
| "receivers (Peek_o t) = [t]"
| "receivers (PeekAt_o t i) = [t]"
| "receivers (Reset_o t) = [t]"
| "receivers (Map_o t fn) = [t]"
| "receivers (Filter_o t p) = [t]"
| "receivers (Find_o t p) = [t]"
| "receivers (ForEach_o t fn) = [t]"
| "receivers (Collect_o t) = [t]"
| "receivers (CollectMap_o t fn) = [t]"
| "receivers (Reduce_o t fn z) = [t]"
| "receivers (Count_o t p) = [t]"
| "receivers (Any_o t p) = [t]"
| "receivers (All_o t p) = [t]"
| "receivers (Chain_o t fn) = [t]"
| "receivers (Skip_o t n) = [t]"
| "receivers (Take_o t n) = [t]"
| "receivers (SkipWhile_o t p) = [t]"
| "receivers (TakeWhile_o t p) = [t]"
| "receivers (Enumerate_o t) = [t]"
| "receivers (Zip_o t u) = [t, u]"
| "receivers (ChainWith_o t u) = [t, u]"
| "receivers (CollectInto_o t u fn) = [t, u]"
| "receivers (CollectWith_o t u) = [t, u]"
| "receivers (CollectWhile_o t p) = [t]"
| "receivers (CollectUntil_o t p) = [t]"

fun effect :: "(int \<Rightarrow> string) \<Rightarrow> 'p invocation \<Rightarrow> 'p store \<Rightarrow> 'p store option" where
  "effect ts (From_o a) st = Some (snd (Iterator_from_o a st))"
| "effect ts (Range_o start fin) st = map_option snd (Iterator_range_o start fin st)"
| "effect ts (HasNext_o t) st = Some (snd (Iterator_hasNext_o t st))"
| "effect ts (Next_o t) st = Some (snd (Iterator_next_o t st))"
| "effect ts (Peek_o t) st = Some (snd (Iterator_peek_o t st))"
| "effect ts (PeekAt_o t i) st = Some (snd (Iterator_peekAt_o ts t i st))"
| "effect ts (Reset_o t) st = Some (snd (Iterator_reset_o t st))"
| "effect ts (Map_o t fn) st = Some (snd (Iterator_map_o t fn st))"
| "effect ts (Filter_o t p) st = Some (snd (Iterator_filter_o t p st))"
| "effect ts (Find_o t p) st = Some (snd (Iterator_find_o t p st))"
| "effect ts (ForEach_o t fn) st = Some (snd (Iterator_forEach_o t fn st))"
| "effect ts (Collect_o t) st = Some (snd (Iterator_collect_o t st))"
| "effect ts (CollectMap_o t fn) st = Some (snd (Iterator_collect_map_o t fn st))"
| "effect ts (Reduce_o t fn z) st = Some (snd (Iterator_reduce_o t fn z st))"
| "effect ts (Count_o t p) st = Some (snd (Iterator_count_o t p st))"
| "effect ts (Any_o t p) st = Some (snd (Iterator_any_o t p st))"
| "effect ts (All_o t p) st = Some (snd (Iterator_all_o t p st))"
| "effect ts (Chain_o t fn) st = Some (snd (Iterator_chain_o t fn st))"
| "effect ts (Skip_o t n) st = Some (snd (Iterator_skip_o t n st))"
| "effect ts (Take_o t n) st = Some (snd (Iterator_take_o t n st))"
| "effect ts (SkipWhile_o t p) st = map_option snd (Iterator_skipWhile_o t p st)"
| "effect ts (TakeWhile_o t p) st = map_option snd (Iterator_takeWhile_o t p st)"
| "effect ts (Enumerate_o t) st = Some (snd (Iterator_enumerate_o t st))"
| "effect ts (Zip_o t u) st = Some (snd (Iterator_zip_o t u st))"
| "effect ts (ChainWith_o t u) st = Some (snd (Iterator_chainWith_o t u st))"
| "effect ts (CollectInto_o t u fn) st = Some (snd (Iterator_collectInto_o t u fn st))"
| "effect ts (CollectWith_o t u) st = Some (snd (Iterator_collectWith_o t u st))"
| "effect ts (CollectWhile_o t p) st = map_option snd (Iterator_collectWhile_o t p st)"
| "effect ts (CollectUntil_o t p) st = map_option snd (Iterator_collectUntil_o t p st)"

fun allocated :: "'p invocation \<Rightarrow> 'p store \<Rightarrow> bool" where
  "allocated (From_o a) st = (a < length (arrays st))"
| "allocated c st = list_all (\<lambda>t. t < length (iterators st)) (receivers c)"

definition step :: "(int \<Rightarrow> string) \<Rightarrow> 'p invocation \<Rightarrow> 'p store \<Rightarrow> 'p store option" where
  "step ts c st = (if allocated c st then effect ts c st else None)"

fun run_o :: "(int \<Rightarrow> string) \<Rightarrow> 'p invocation list \<Rightarrow> 'p store \<Rightarrow> 'p store option" where
  "run_o ts [] st = Some st"
| "run_o ts (c # cs) st = (case step ts c st of None \<Rightarrow> None | Some st1 \<Rightarrow> run_o ts cs st1)"

text \<open>
  \<open>guarded ts cs st\<close>: in the run of the calls \<open>cs\<close> from \<open>st\<close> every call is
  allocated and returns, and every \<^verbatim>\<open>next\<close> is called at a moment when \<^verbatim>\<open>hasNext()\<close>
  of its receiver is true.
\<close>

fun next_allowed :: "'p invocation \<Rightarrow> 'p store \<Rightarrow> bool" where
  "next_allowed (Next_o t) st = fst (Iterator_hasNext_o t st)"
| "next_allowed c st = True"

fun guarded :: "(int \<Rightarrow> string) \<Rightarrow> 'p invocation list \<Rightarrow> 'p store \<Rightarrow> bool" where
  "guarded ts [] st = True"
| "guarded ts (c # cs) st =
     (next_allowed c st \<and> (case step ts c st of None \<Rightarrow> False | Some st1 \<Rightarrow> guarded ts cs st1))"

text \<open>
  \<open>well_formed\<close>: the field \<^verbatim>\<open>items\<close> of every object refers to an array of the store.
  \<open>cursors_in_range\<close>: the cursor of every sequence is in \<open>[0, length]\<close> of its
  backing array.
\<close>

definition well_formed :: "'p store \<Rightarrow> bool" where
  "well_formed st = list_all (\<lambda>it. items_o it < length (arrays st)) (iterators st)"

definition cursors_in_range :: "'p store \<Rightarrow> bool" where
  "cursors_in_range st =
     list_all (\<lambda>it. index_o it \<le> length (arrays st ! items_o it)) (iterators st)"

text \<open>
  \<open>new_sequence st (r, st')\<close>: from \<open>st\<close> the method has returned the reference \<open>r\<close>
  to a new object and left the store \<open>st'\<close>; every object of \<open>st\<close> is as it was, the
  new object is the only one added, its cursor is 0 and its array is the last one
  allocated by the method; every array of \<open>st\<close> is as it was.
\<close>

definition new_sequence :: "'p store \<Rightarrow> nat \<times> 'p store \<Rightarrow> bool" where
  "new_sequence st res =
     (case res of (r, st') \<Rightarrow>
        r = length (iterators st)
        \<and> iterators st' = iterators st @ [\<lparr>items_o = length (arrays st') - 1, index_o = 0\<rparr>]
        \<and> length (arrays st) < length (arrays st')
        \<and> take (length (arrays st)) (arrays st') = arrays st)"

text \<open>
  \<open>extends st st'\<close>: \<open>st'\<close> is \<open>st\<close> with new arrays and new objects added, the new
  objects with cursor 0 over allocated arrays. \<open>keeps st st'\<close>: every array of \<open>st\<close> is
  as it was and every object of \<open>st\<close> refers to the array it referred to.
\<close>

definition extends :: "'p store \<Rightarrow> 'p store \<Rightarrow> bool" where
  "extends st st' =
     (take (length (arrays st)) (arrays st') = arrays st
      \<and> length (arrays st) \<le> length (arrays st')
      \<and> take (length (iterators st)) (iterators st') = iterators st
      \<and> length (iterators st) \<le> length (iterators st')
      \<and> list_all (\<lambda>it. index_o it = 0 \<and> items_o it < length (arrays st'))
           (drop (length (iterators st)) (iterators st')))"

definition keeps :: "'p store \<Rightarrow> 'p store \<Rightarrow> bool" where
  "keeps st st' =
     (take (length (arrays st)) (arrays st') = arrays st
      \<and> map items_o (take (length (iterators st)) (iterators st')) = map items_o (iterators st))"

text \<open>\<open>view st this\<close> is the sequence at \<open>this\<close> as a record of values.\<close>

definition view :: "'p store \<Rightarrow> nat \<Rightarrow> 'p elem Iterator" where
  "view st this = \<lparr>items = this_items st this, index = this_index st this\<rparr>"

section \<open>Facts about the loops and the array helpers\<close>


text \<open>Where \<^verbatim>\<open>i++\<close> leaves \<^verbatim>\<open>i\<close> as it is below the end, the loop never returns.\<close>

lemma range_loop_stuck:
  assumes "js_incr i = i" and "i < fin"
  shows "range_loop i fin acc = None"
proof -
  have "False" if "range_loop i fin acc = Some r" for r
  proof -
    have "j = i \<and> e = fin \<longrightarrow> False" if "range_loop j e xs = Some ys" for j e xs ys
    proof (rule range_loop.raw_induct
        [where P = "\<lambda>j e xs ys. j = i \<and> e = fin \<longrightarrow> False", OF _ that])
      fix loop j e xs ys
      assume ih: "\<And>j e xs ys. loop j e xs = Some ys \<Longrightarrow> j = i \<and> e = fin \<longrightarrow> False"
        and step: "(if j < e then loop (js_incr j) e (xs @ [j]) else Some xs) = Some ys"
      show "j = i \<and> e = fin \<longrightarrow> False"
      proof
        assume "j = i \<and> e = fin"
        with step assms have "loop i fin (xs @ [i]) = Some ys" by simp
        with ih show False by blast
      qed
    qed
    with that show False by blast
  qed
  then show ?thesis by (cases "range_loop i fin acc") auto
qed

lemma range_never_returns:
  "Iterator_range (2 ^ 53) (Some (2 ^ 53 + 2)) = None"
  using range_loop_stuck [of "2 ^ 53" "2 ^ 53 + 2" "[]"]
  by (simp add: Iterator_range_def js_incr_def)

lemma foldl_push: "foldl (\<lambda>acc x. acc @ [g x]) init xs = init @ map g xs"
  by (induction xs arbitrary: init) simp_all

lemma forEach_indexed_push:
  "forEach_indexed (\<lambda>result v i. result @ [f v i]) [] xs = map_indexed f xs"
proof -
  have "(\<lambda>acc (i, v). acc @ [f v i]) = (\<lambda>acc x. acc @ [(\<lambda>(i, v). f v i) x])"
    by (simp add: fun_eq_iff split: prod.split)
  then show ?thesis
    by (simp add: forEach_indexed_def map_indexed_def foldl_push)
qed

text \<open>
  Reading the other array at every index of \<open>xs\<close> is zipping \<open>xs\<close> with the other
  array padded by \<^verbatim>\<open>undefined\<close> up to the length of \<open>xs\<close>.
\<close>

lemma map_indexed_array_get:
  "map_indexed (\<lambda>v i. f v (array_get ys i)) xs =
   map (\<lambda>(x, y). f x y) (zip xs (map Some ys @ replicate (length xs - length ys) None))"
  by (rule nth_equalityI)
     (auto simp: map_indexed_def array_get_def nth_enumerate_eq nth_append)

lemma zip_padded:
  "map_indexed (\<lambda>v i. (v, array_get ys i)) xs =
   zip xs (map Some ys @ replicate (length xs - length ys) None)"
  using map_indexed_array_get [of Pair ys xs] by simp

lemma take_min_zip_padded:
  "take (min (length xs) (length ys))
     (zip xs (map Some ys @ replicate (length xs - length ys) None)) =
   zip xs (map Some ys)"
  by (rule nth_equalityI) (auto simp: nth_append)

lemma slice_drop: "slice xs (int k) None = drop k xs"
  by (simp add: slice_def Let_def min_def)

lemma slice_take: "slice xs 0 (Some (int k)) = take k xs"
  by (simp add: slice_def Let_def min_def)

text \<open>
  The scan returns as soon as the predicate is false: at the first element that fails
  it, or, when every element passes, at the first read past the end if the predicate is
  false on \<^verbatim>\<open>undefined\<close>.
\<close>

lemma scan_while_eq:
  assumes "\<not> predicate None \<or> (\<exists>x \<in> set (drop i xs). \<not> predicate (Some x))"
  shows "scan_while predicate xs i =
         Some (i + length (takeWhile (\<lambda>x. predicate (Some x)) (drop i xs)))"
  using assms
proof (induction "length xs - i" arbitrary: i)
  case 0
  then have "drop i xs = []" and "array_get xs i = None"
    by (simp_all add: array_get_def)
  with 0 show ?case
    by (subst scan_while.simps) simp
next
  case (Suc n)
  then have lt: "i < length xs" by simp
  then have d: "drop i xs = xs ! i # drop (Suc i) xs"
    by (simp add: Cons_nth_drop_Suc)
  have g: "array_get xs i = Some (xs ! i)"
    using lt by (simp add: array_get_def)
  show ?case
  proof (cases "predicate (Some (xs ! i))")
    case True
    have "n = length xs - Suc i" using Suc.hyps(2) by simp
    moreover have "\<not> predicate None \<or> (\<exists>x \<in> set (drop (Suc i) xs). \<not> predicate (Some x))"
      using Suc.prems True d by auto
    ultimately have "scan_while predicate xs (Suc i) =
        Some (Suc i + length (takeWhile (\<lambda>x. predicate (Some x)) (drop (Suc i) xs)))"
      by (rule Suc.hyps(1))
    with True g d show ?thesis
      by (subst scan_while.simps) simp
  next
    case False
    with g d show ?thesis
      by (subst scan_while.simps) simp
  qed
qed

text \<open>
  When the predicate is true on every element and on \<^verbatim>\<open>undefined\<close>, the scan never
  returns.
\<close>

lemma scan_while_diverges:
  assumes "predicate None" and "\<forall>x \<in> set xs. predicate (Some x)"
  shows "scan_while predicate xs i = None"
proof -
  have every: "predicate (array_get xs j)" for j
    using assms by (simp add: array_get_def)
  have "False" if "scan_while predicate xs i = Some r" for r
  proof -
    have "p = predicate \<and> ys = xs \<longrightarrow> False" if "scan_while p ys j = Some k" for p ys j k
    proof (rule scan_while.raw_induct
        [where P = "\<lambda>p ys j k. p = predicate \<and> ys = xs \<longrightarrow> False", OF _ that])
      fix scan p ys j k
      assume ih: "\<And>p ys j k. scan p ys j = Some k \<Longrightarrow> p = predicate \<and> ys = xs \<longrightarrow> False"
        and step: "(if p (array_get ys j) then scan p ys (j + 1) else Some j) = Some k"
      show "p = predicate \<and> ys = xs \<longrightarrow> False"
      proof
        assume eq: "p = predicate \<and> ys = xs"
        with step every have "scan predicate xs (j + 1) = Some k" by simp
        with ih show False by blast
      qed
    qed
    with that show False by blast
  qed
  then show ?thesis by (cases "scan_while predicate xs i") auto
qed

lemma skipWhile_returns:
  assumes "\<not> predicate None \<or> (\<exists>x \<in> set (items this). \<not> predicate (Some x))"
  shows "Iterator_skipWhile this predicate =
         Some (new_Iterator (dropWhile (\<lambda>x. predicate (Some x)) (items this)))"
  using scan_while_eq [of predicate 0 "items this"] assms
  by (simp add: Iterator_skipWhile_def slice_drop dropWhile_eq_drop)

lemma takeWhile_returns:
  assumes "\<not> predicate None \<or> (\<exists>x \<in> set (items this). \<not> predicate (Some x))"
  shows "Iterator_takeWhile this predicate =
         Some (new_Iterator (takeWhile (\<lambda>x. predicate (Some x)) (items this)))"
  using scan_while_eq [of predicate 0 "items this"] assms
  by (simp add: Iterator_takeWhile_def slice_take takeWhile_eq_take [symmetric])

lemma skipWhile_never_returns:
  assumes "predicate None" and "\<forall>x \<in> set (items this). predicate (Some x)"
  shows "Iterator_skipWhile this predicate = None"
  using scan_while_diverges [OF assms] by (simp add: Iterator_skipWhile_def)

section \<open>Facts about sequences of calls\<close>

lemma items_call: "items (call m this) = items this"
  by (cases m) (simp_all add: Iterator_next_def Iterator_reset_def)

lemma items_run: "items (run ms this) = items this"
  by (induction ms arbitrary: this) (simp_all add: items_call)

lemma index_run_Next: "index (run (replicate k Next) this) = index this + k"
  by (induction k arbitrary: this) (simp_all add: Iterator_next_def)

lemma number_equal_iff:
  "number_equal x y =
     (x \<noteq> NaN \<and> y \<noteq> NaN
      \<and> (x = y \<or> (x = NegZero \<and> y = Finite 0) \<or> (x = Finite 0 \<and> y = NegZero)))"
  by (cases x; cases y) auto

text \<open>
  A function that is called shows in the outcome: on a success result \<^verbatim>\<open>map\<close> hands
  on the exception and the state change of its argument.
\<close>

lemma Result_map_Ok_calls:
  "Result_map (\<lambda>v s. (Inl (Error ''thrown''), Suc s)) (Ok v) s = (Inl (Error ''thrown''), Suc s)"
  by (simp add: Result_map_def)

section \<open>Facts about the store\<close>

lemmas store_simps = new_Array_def new_Arrays_def new_Iterator_o_def set_index_def

text \<open>Every call but \<^verbatim>\<open>next\<close> and \<^verbatim>\<open>reset\<close> only adds to the store.\<close>

lemma effect_extends:
  assumes "allocated c st" and "effect ts c st = Some st'"
    and "\<forall>t. c \<noteq> Next_o t" and "\<forall>t. c \<noteq> Reset_o t"
  shows "extends st st'"
  using assms
  by (cases c)
     (auto simp: extends_def store_simps Let_def split_def
        Iterator_from_o_def Iterator_range_o_def Iterator_hasNext_o_def Iterator_peek_o_def
        Iterator_peekAt_o_def Iterator_map_o_def Iterator_filter_o_def Iterator_find_o_def
        Iterator_forEach_o_def Iterator_collect_o_def Iterator_collect_map_o_def
        Iterator_reduce_o_def Iterator_count_o_def Iterator_any_o_def Iterator_all_o_def
        Iterator_chain_o_def Iterator_skip_o_def Iterator_take_o_def Iterator_skipWhile_o_def
        Iterator_takeWhile_o_def Iterator_enumerate_o_def Iterator_zip_o_def
        Iterator_chainWith_o_def Iterator_collectInto_o_def Iterator_collectWith_o_def
        Iterator_collectWhile_o_def Iterator_collectUntil_o_def
        split: option.splits if_splits)

lemma nth_of_take:
  assumes "take n ys = xs" and "i < length xs"
  shows "ys ! i = xs ! i"
proof -
  have "xs = take n ys" using assms(1) by simp
  with assms(2) show ?thesis by simp
qed

lemma split_at_take: "take n ys = xs \<Longrightarrow> ys = xs @ drop n ys"
  using append_take_drop_id [of n ys] by simp

lemma extends_well_formed:
  assumes "extends st st'" and "well_formed st"
  shows "well_formed st'"
proof -
  have its: "iterators st' = iterators st @ drop (length (iterators st)) (iterators st')"
    using assms(1) by (simp add: extends_def split_at_take)
  have old: "list_all (\<lambda>it. items_o it < length (arrays st')) (iterators st)"
    using assms by (auto simp: extends_def well_formed_def list_all_iff)
  have new: "list_all (\<lambda>it. items_o it < length (arrays st'))
               (drop (length (iterators st)) (iterators st'))"
    using assms(1) by (auto simp: extends_def list_all_iff)
  show ?thesis
    unfolding well_formed_def by (subst its) (simp add: old new)
qed

lemma extends_cursors:
  assumes "extends st st'" and "well_formed st" and "cursors_in_range st"
  shows "cursors_in_range st'"
proof -
  have its: "iterators st' = iterators st @ drop (length (iterators st)) (iterators st')"
    using assms(1) by (simp add: extends_def split_at_take)
  have same: "arrays st' ! a = arrays st ! a" if "a < length (arrays st)" for a
    using assms(1) that nth_of_take [of "length (arrays st)" "arrays st'" "arrays st" a]
    by (simp add: extends_def)
  have old: "list_all (\<lambda>it. index_o it \<le> length (arrays st' ! items_o it)) (iterators st)"
    using assms(2,3) same by (auto simp: well_formed_def cursors_in_range_def list_all_iff)
  have new: "list_all (\<lambda>it. index_o it \<le> length (arrays st' ! items_o it))
               (drop (length (iterators st)) (iterators st'))"
    using assms(1) by (auto simp: extends_def list_all_iff)
  show ?thesis
    unfolding cursors_in_range_def by (subst its) (simp add: old new)
qed

lemma set_index_well_formed:
  assumes "well_formed st"
  shows "well_formed (set_index t i st)"
proof (cases "t < length (iterators st)")
  case True
  with assms show ?thesis
    by (simp add: well_formed_def set_index_def list_all_length nth_list_update)
next
  case False
  then have "(iterators st)[t := (iterators st ! t)\<lparr>index_o := i\<rparr>] = iterators st"
    by (simp add: list_update_beyond)
  with assms show ?thesis
    by (simp add: well_formed_def set_index_def)
qed

lemma set_index_cursors:
  assumes "cursors_in_range st" and "t < length (iterators st)"
    and "i \<le> length (this_items st t)"
  shows "cursors_in_range (set_index t i st)"
  using assms
  by (simp add: cursors_in_range_def set_index_def this_items_def list_all_length
        nth_list_update)

lemma effect_Next: "snd (Iterator_next_o t st) = set_index t (this_index st t + 1) st"
  by (simp add: Iterator_next_o_def)

lemma effect_Reset: "snd (Iterator_reset_o t st) = set_index t 0 st"
  by (simp add: Iterator_reset_o_def)

lemma step_well_formed:
  assumes "well_formed st" and "step ts c st = Some st'"
  shows "well_formed st'"
proof -
  have al: "allocated c st" and ef: "effect ts c st = Some st'"
    using assms(2) by (auto simp: step_def split: if_splits)
  consider t where "c = Next_o t" | t where "c = Reset_o t"
    | "\<forall>t. c \<noteq> Next_o t" "\<forall>t. c \<noteq> Reset_o t"
    by blast
  then show ?thesis
  proof cases
    case 1
    with ef assms(1) show ?thesis by (auto simp: effect_Next set_index_well_formed)
  next
    case 2
    with ef assms(1) show ?thesis by (auto simp: effect_Reset set_index_well_formed)
  next
    case 3
    with al ef have "extends st st'" by (rule effect_extends)
    with assms(1) show ?thesis by (simp add: extends_well_formed)
  qed
qed

lemma step_cursors:
  assumes "well_formed st" and "cursors_in_range st" and "next_allowed c st"
    and "step ts c st = Some st'"
  shows "cursors_in_range st'"
proof -
  have al: "allocated c st" and ef: "effect ts c st = Some st'"
    using assms(4) by (auto simp: step_def split: if_splits)
  consider t where "c = Next_o t" | t where "c = Reset_o t"
    | "\<forall>t. c \<noteq> Next_o t" "\<forall>t. c \<noteq> Reset_o t"
    by blast
  then show ?thesis
  proof cases
    case 1
    then have "t < length (iterators st)" and "this_index st t + 1 \<le> length (this_items st t)"
      using al assms(3) by (simp_all add: Iterator_hasNext_o_def)
    with 1 ef assms(2) show ?thesis by (auto simp: effect_Next set_index_cursors)
  next
    case 2
    then have "t < length (iterators st)" using al by simp
    with 2 ef assms(2) show ?thesis by (auto simp: effect_Reset set_index_cursors)
  next
    case 3
    with al ef have "extends st st'" by (rule effect_extends)
    with assms(1,2) show ?thesis by (simp add: extends_cursors)
  qed
qed

lemma keeps_lengths:
  assumes "keeps st st'"
  shows "length (arrays st) \<le> length (arrays st')" and "length (iterators st) \<le> length (iterators st')"
proof -
  have "length (take (length (arrays st)) (arrays st')) = length (arrays st)"
    using assms by (simp add: keeps_def)
  then show "length (arrays st) \<le> length (arrays st')" by simp
  have "length (map items_o (take (length (iterators st)) (iterators st'))) = length (iterators st)"
    using assms by (simp add: keeps_def)
  then show "length (iterators st) \<le> length (iterators st')" by simp
qed

lemma keeps_refl: "keeps st st"
  by (simp add: keeps_def)

lemma keeps_trans:
  assumes "keeps st1 st2" and "keeps st2 st3"
  shows "keeps st1 st3"
proof -
  have a: "length (arrays st1) \<le> length (arrays st2)"
    and i: "length (iterators st1) \<le> length (iterators st2)"
    using assms(1) by (rule keeps_lengths)+
  have "take (length (arrays st1)) (arrays st3) =
        take (length (arrays st1)) (take (length (arrays st2)) (arrays st3))"
    using a by (simp add: min_def)
  also have "\<dots> = arrays st1"
    using assms by (simp add: keeps_def)
  finally have A: "take (length (arrays st1)) (arrays st3) = arrays st1" .
  have "map items_o (take (length (iterators st1)) (iterators st3)) =
        take (length (iterators st1)) (map items_o (take (length (iterators st2)) (iterators st3)))"
    using i by (simp add: take_map min_def)
  also have "\<dots> = take (length (iterators st1)) (map items_o (iterators st2))"
    using assms(2) by (simp add: keeps_def)
  also have "\<dots> = map items_o (iterators st1)"
    using assms(1) by (simp add: keeps_def take_map)
  finally show ?thesis using A by (simp add: keeps_def)
qed

lemma extends_keeps: "extends st st' \<Longrightarrow> keeps st st'"
  by (simp add: extends_def keeps_def)

lemma set_index_keeps: "keeps st (set_index t i st)"
proof (cases "t < length (iterators st)")
  case True
  then have "(map items_o (iterators st))[t := items_o (iterators st ! t)] = map items_o (iterators st)"
    by (simp add: list_update_same_conv)
  then show ?thesis
    by (simp add: keeps_def set_index_def map_update)
next
  case False
  then have "(iterators st)[t := (iterators st ! t)\<lparr>index_o := i\<rparr>] = iterators st"
    by (simp add: list_update_beyond)
  then show ?thesis
    by (simp add: keeps_def set_index_def)
qed

lemma step_keeps:
  assumes "step ts c st = Some st'"
  shows "keeps st st'"
proof -
  have al: "allocated c st" and ef: "effect ts c st = Some st'"
    using assms by (auto simp: step_def split: if_splits)
  consider t where "c = Next_o t" | t where "c = Reset_o t"
    | "\<forall>t. c \<noteq> Next_o t" "\<forall>t. c \<noteq> Reset_o t"
    by blast
  then show ?thesis
  proof cases
    case 1
    with ef show ?thesis by (auto simp: effect_Next set_index_keeps)
  next
    case 2
    with ef show ?thesis by (auto simp: effect_Reset set_index_keeps)
  next
    case 3
    with al ef have "extends st st'" by (rule effect_extends)
    then show ?thesis by (rule extends_keeps)
  qed
qed

lemma run_keeps: "run_o ts cs st = Some st' \<Longrightarrow> keeps st st'"
proof (induction cs arbitrary: st)
  case Nil
  then show ?case by (simp add: keeps_refl)
next
  case (Cons c cs)
  then obtain st1 where s: "step ts c st = Some st1" and r: "run_o ts cs st1 = Some st'"
    by (auto split: option.splits)
  from s have "keeps st st1" by (rule step_keeps)
  moreover from r have "keeps st1 st'" by (rule Cons.IH)
  ultimately show ?case by (rule keeps_trans)
qed

lemma keeps_this_items:
  assumes "keeps st st'" and "well_formed st" and "this < length (iterators st)"
  shows "this_items st' this = this_items st this"
proof -
  have "map items_o (take (length (iterators st)) (iterators st')) ! this =
        map items_o (iterators st) ! this"
    using assms(1) by (simp add: keeps_def)
  moreover have "length (iterators st) \<le> length (iterators st')"
    using assms(1) by (rule keeps_lengths)
  ultimately have r: "items_o (iterators st' ! this) = items_o (iterators st ! this)"
    using assms(3) by simp
  have "items_o (iterators st ! this) < length (arrays st)"
    using assms(2,3) by (simp add: well_formed_def list_all_length)
  then have "arrays st' ! items_o (iterators st ! this) = arrays st ! items_o (iterators st ! this)"
    using assms(1)
      nth_of_take [of "length (arrays st)" "arrays st'" "arrays st" "items_o (iterators st ! this)"]
    by (simp add: keeps_def)
  with r show ?thesis by (simp add: this_items_def)
qed

lemma guarded_run:
  "well_formed st \<Longrightarrow> cursors_in_range st \<Longrightarrow> guarded ts cs st \<Longrightarrow>
   \<exists>st'. run_o ts cs st = Some st' \<and> well_formed st' \<and> cursors_in_range st'"
proof (induction cs arbitrary: st)
  case Nil
  then show ?case by simp
next
  case (Cons c cs)
  from Cons.prems(3) obtain st1 where s: "step ts c st = Some st1"
    and n: "next_allowed c st" and g: "guarded ts cs st1"
    by (auto split: option.splits)
  have "well_formed st1" using Cons.prems(1) s by (rule step_well_formed)
  moreover have "cursors_in_range st1" using Cons.prems(1,2) n s by (rule step_cursors)
  ultimately have "\<exists>st'. run_o ts cs st1 = Some st' \<and> well_formed st' \<and> cursors_in_range st'"
    using g by (rule Cons.IH)
  with s show ?case by simp
qed

text \<open>
  Seen as records of values, the methods on the store are the methods of the sections
  above.
\<close>

lemma view_next:
  assumes "this < length (iterators st)"
  shows "view (snd (Iterator_next_o this st)) this = snd (Iterator_next (view st this))"
    and "fst (Iterator_next_o this st) =
         (case fst (Iterator_next (view st this)) of None \<Rightarrow> Undefined_e | Some v \<Rightarrow> v)"
  using assms
  by (simp_all add: view_def Iterator_next_o_def Iterator_next_def set_index_def this_items_def
        this_index_def elem_get_def)

lemma view_reset:
  assumes "this < length (iterators st)"
  shows "view (snd (Iterator_reset_o this st)) this = Iterator_reset (view st this)"
  using assms
  by (simp add: view_def Iterator_reset_o_def Iterator_reset_def set_index_def this_items_def
        this_index_def)

lemma view_new:
  "view (snd (new_Iterator_o (fst (new_Array xs st)) (snd (new_Array xs st))))
        (fst (new_Iterator_o (fst (new_Array xs st)) (snd (new_Array xs st)))) =
   new_Iterator xs"
  by (simp add: view_def new_Iterator_o_def new_Array_def new_Iterator_def this_items_def
        this_index_def)

lemma view_map:
  "view (snd (Iterator_map_o this fn st)) (fst (Iterator_map_o this fn st)) =
   Iterator_map (view st this) fn"
  by (simp add: Iterator_map_o_def Iterator_map_def split_def Let_def view_new) (simp add: view_def)

lemma view_filter:
  "view (snd (Iterator_filter_o this p st)) (fst (Iterator_filter_o this p st)) =
   Iterator_filter (view st this) p"
  by (simp add: Iterator_filter_o_def Iterator_filter_def split_def Let_def view_new)
     (simp add: view_def)

lemma view_skip:
  "view (snd (Iterator_skip_o this n st)) (fst (Iterator_skip_o this n st)) =
   Iterator_skip (view st this) n"
  by (simp add: Iterator_skip_o_def Iterator_skip_def split_def Let_def view_new)
     (simp add: view_def)

lemma view_take:
  "view (snd (Iterator_take_o this n st)) (fst (Iterator_take_o this n st)) =
   Iterator_take (view st this) n"
  by (simp add: Iterator_take_o_def Iterator_take_def split_def Let_def view_new)
     (simp add: view_def)

lemma view_skipWhile:
  "map_option (\<lambda>res. view (snd res) (fst res)) (Iterator_skipWhile_o this p st) =
   Iterator_skipWhile (view st this) (on_read p)"
  by (simp add: Iterator_skipWhile_o_def Iterator_skipWhile_def split_def Let_def view_new
        split: option.split del: split_paired_Ex split_paired_All)
     (simp add: view_def)

lemma view_takeWhile:
  "map_option (\<lambda>res. view (snd res) (fst res)) (Iterator_takeWhile_o this p st) =
   Iterator_takeWhile (view st this) (on_read p)"
  by (simp add: Iterator_takeWhile_o_def Iterator_takeWhile_def split_def Let_def view_new
        split: option.split del: split_paired_Ex split_paired_All)
     (simp add: view_def)

text \<open>
  The scan does not return exactly when the predicate is true on every element and on
  \<^verbatim>\<open>undefined\<close>.
\<close>

lemma scan_on_read:
  "scan_while (on_read q) xs 0 =
     (if q Undefined_e \<and> list_all q xs then None
      else Some (length (takeWhile q xs)))"
proof (cases "q Undefined_e \<and> list_all q xs")
  case True
  then have "scan_while (on_read q) xs 0 = None"
    by (intro scan_while_diverges) (simp_all add: on_read_def list_all_iff)
  with True show ?thesis by simp
next
  case False
  then have "\<not> on_read q None \<or> (\<exists>x \<in> set (drop 0 xs). \<not> on_read q (Some x))"
    by (auto simp: on_read_def list_all_iff)
  then have "scan_while (on_read q) xs 0 =
             Some (0 + length (takeWhile (\<lambda>x. on_read q (Some x)) (drop 0 xs)))"
    by (rule scan_while_eq)
  moreover have "(\<lambda>x. on_read q (Some x)) = q"
    by (simp add: on_read_def fun_eq_iff)
  ultimately show ?thesis using False by simp
qed

lemma new_sequence_alloc:
  "new_sequence st (new_Iterator_o (fst (new_Array xs st)) (snd (new_Array xs st)))"
  by (simp add: new_sequence_def new_Iterator_o_def new_Array_def)

lemma new_sequence_alloc_pairs:
  "new_sequence st
     (new_Iterator_o (fst (new_Array ys (snd (new_Arrays xss st))))
        (snd (new_Array ys (snd (new_Arrays xss st)))))"
  by (simp add: new_sequence_def new_Iterator_o_def new_Array_def new_Arrays_def)

lemma transformations_new:
  "new_sequence st (Iterator_map_o this fn st)"
  "new_sequence st (Iterator_filter_o this p st)"
  "new_sequence st (Iterator_skip_o this n st)"
  "new_sequence st (Iterator_take_o this n st)"
  "new_sequence st (Iterator_chain_o this g st)"
  by (simp_all add: Iterator_map_o_def Iterator_filter_o_def Iterator_skip_o_def
        Iterator_take_o_def Iterator_chain_o_def split_def Let_def new_sequence_alloc)

lemma pairings_new:
  "new_sequence st (Iterator_enumerate_o this st)"
  "new_sequence st (Iterator_zip_o this other st)"
  "new_sequence st (Iterator_chainWith_o this other st)"
  by (simp_all add: Iterator_enumerate_o_def Iterator_zip_o_def Iterator_chainWith_o_def
        split_def Let_def new_sequence_def new_Iterator_o_def new_Array_def new_Arrays_def)

lemma scans_new:
  "if q Undefined_e \<and> list_all q (this_items st this)
   then Iterator_skipWhile_o this q st = None \<and> Iterator_takeWhile_o this q st = None
   else (\<exists>res. Iterator_skipWhile_o this q st = Some res \<and> new_sequence st res)
        \<and> (\<exists>res. Iterator_takeWhile_o this q st = Some res \<and> new_sequence st res)"
  by (simp add: Iterator_skipWhile_o_def Iterator_takeWhile_o_def scan_on_read split_def Let_def
        new_sequence_alloc del: split_paired_Ex split_paired_All)

lemma range_new:
  "case Iterator_range_o start fin st of None \<Rightarrow> True | Some res \<Rightarrow> new_sequence st res"
  by (simp add: Iterator_range_o_def split_def Let_def new_sequence_alloc split: option.split
        del: split_paired_Ex split_paired_All)

text \<open>
  Without the guard one \<^verbatim>\<open>next\<close> on a sequence over the empty array puts its cursor
  out of range in the store as well.
\<close>

lemma next_past_end_in_store:
  "run_o ts [Next_o 0] \<lparr>arrays = [[]], iterators = [\<lparr>items_o = 0, index_o = 0\<rparr>]\<rparr> =
     Some \<lparr>arrays = [[]], iterators = [\<lparr>items_o = 0, index_o = 1\<rparr>]\<rparr>
   \<and> \<not> cursors_in_range \<lparr>arrays = [[]], iterators = [\<lparr>items_o = 0, index_o = 1\<rparr>]\<rparr>"
  by (simp add: step_def Iterator_next_o_def set_index_def this_index_def cursors_in_range_def)

text \<open>
  A run on a store with one array and one sequence over it: two guarded calls of
  \<^verbatim>\<open>next\<close> with a \<^verbatim>\<open>map\<close> in between, a reset, a guarded \<^verbatim>\<open>next\<close> on the mapped
  sequence and a \<^verbatim>\<open>from\<close> over the first array.
\<close>

lemma example_run:
  "run_o (\<lambda>i. [])
     [Next_o 0, Map_o 0 (\<lambda>v. v), Next_o 0, Reset_o 0, Next_o 1, From_o 0]
     \<lparr>arrays = [[Value (1 :: nat), Value 2]], iterators = [\<lparr>items_o = 0, index_o = 0\<rparr>]\<rparr> =
   Some \<lparr>arrays = [[Value 1, Value 2], [Value 1, Value 2]],
         iterators = [\<lparr>items_o = 0, index_o = 0\<rparr>, \<lparr>items_o = 1, index_o = 1\<rparr>,
                      \<lparr>items_o = 0, index_o = 0\<rparr>]\<rparr>"
  by (simp add: step_def Iterator_next_o_def Iterator_map_o_def Iterator_reset_o_def
        Iterator_from_o_def new_Array_def new_Iterator_o_def set_index_def this_index_def
        this_items_def Let_def split_def)

lemma example_guarded:
  "guarded (\<lambda>i. [])
     [Next_o 0, Map_o 0 (\<lambda>v. v), Next_o 0, Reset_o 0, Next_o 1, From_o 0]
     \<lparr>arrays = [[Value (1 :: nat), Value 2]], iterators = [\<lparr>items_o = 0, index_o = 0\<rparr>]\<rparr>"
  by (simp add: step_def Iterator_next_o_def Iterator_map_o_def Iterator_reset_o_def
        Iterator_from_o_def Iterator_hasNext_o_def new_Array_def new_Iterator_o_def set_index_def
        this_index_def this_items_def Let_def split_def)

section \<open>The claims\<close>

subsection \<open>Optional container\<close>

text \<open>
  C1, as the code has it. For every value \<open>v\<close>, serializing the present container of
  \<open>v\<close> yields the object with the two properties \<^verbatim>\<open>type\<close>, holding the string
  \<^verbatim>\<open>"Some"\<close>, and \<^verbatim>\<open>value\<close>, holding \<open>v\<close>; serializing the absent container yields the
  object with the single property \<^verbatim>\<open>type\<close>, holding the string \<^verbatim>\<open>"None"\<close>, and no
  \<^verbatim>\<open>value\<close> property.
\<close>

theorem toJSON_tags:
  "Option_toJSON (Some_o v) = [(''type'', JString ''Some''), (''value'', JValue v)]
   \<and> Option_toJSON (None_o :: 'a Option) = [(''type'', JString ''None'')]
   \<and> map_of (Option_toJSON (None_o :: 'a Option)) ''value'' = None"
  by (simp add: Option_toJSON_def)

text \<open>
  C1 as stated asks for the tags \<^verbatim>\<open>"Present"\<close> and \<^verbatim>\<open>"Absent"\<close>. Neither object is
  what \<^verbatim>\<open>toJSON\<close> returns, here for the present container of 42 and for the absent
  container.
\<close>

theorem toJSON_Present_counterexample:
  "Option_toJSON (Some_o (42 :: int)) \<noteq> [(''type'', JString ''Present''), (''value'', JValue 42)]
   \<and> Option_toJSON (None_o :: int Option) \<noteq> [(''type'', JString ''Absent'')]"
  by (simp add: Option_toJSON_def)

text \<open>
  C4. For every value \<open>v\<close>, \<^verbatim>\<open>unwrap\<close> on the present container of \<open>v\<close> returns \<open>v\<close>;
  \<^verbatim>\<open>unwrap\<close> on the absent container throws, and the error it throws is the one with
  the fixed message of \<^verbatim>\<open>None.unwrap\<close> (the failure the specification calls
  EmptyValueError); \<^verbatim>\<open>expect\<close> on the absent container throws an error whose message
  is exactly the message the caller passed.
\<close>

theorem Option_unwrap_expect:
  "Option_unwrap (Some_o v) = Inr v
   \<and> Option_unwrap (None_o :: 'a Option) = Inl (Error ''Called unwrap on a None value.'')
   \<and> Option_expect (None_o :: 'a Option) msg = Inl (Error msg)"
  by (simp add: Option_unwrap_def Option_expect_def)

text \<open>
  C10, as the code has it. \<^verbatim>\<open>equals\<close> on two present containers returns the result of
  \<^verbatim>\<open>===\<close> on the wrapped values and never throws. For two numbers that is true exactly
  when neither is \<^verbatim>\<open>NaN\<close> and they are the same number or the two zeros; for two
  objects exactly when they are the same reference, whatever their properties; for an
  undefined, null, boolean, bigint, string or symbol first value exactly when the second
  value is the same value; and false when only one of the two values is a number or only
  one is an object. \<^verbatim>\<open>equals\<close> on two absent containers returns true.
\<close>

theorem equals_strict:
  "Option_equals (Some_o a) (Some_o b) = Inr (strict_eq a b)
   \<and> Option_equals (Some_o (Number x)) (Some_o b) =
       Inr (case b of
              Number y \<Rightarrow>
                x \<noteq> NaN \<and> y \<noteq> NaN
                \<and> (x = y \<or> (x = NegZero \<and> y = Finite 0) \<or> (x = Finite 0 \<and> y = NegZero))
            | _ \<Rightarrow> False)
   \<and> Option_equals (Some_o (Object r1 p1)) (Some_o b) =
       Inr (case b of Object r2 p2 \<Rightarrow> r1 = r2 | _ \<Rightarrow> False)
   \<and> Option_equals (Some_o Undefined) (Some_o b) = Inr (b = Undefined)
   \<and> Option_equals (Some_o Null) (Some_o b) = Inr (b = Null)
   \<and> Option_equals (Some_o (Boolean c)) (Some_o b) = Inr (b = Boolean c)
   \<and> Option_equals (Some_o (BigInt n)) (Some_o b) = Inr (b = BigInt n)
   \<and> Option_equals (Some_o (String s)) (Some_o b) = Inr (b = String s)
   \<and> Option_equals (Some_o (Symbol k)) (Some_o b) = Inr (b = Symbol k)
   \<and> Option_equals None_o None_o = Inr True"
proof -
  have e: "Option_equals (Some_o u) (Some_o w) = Inr (strict_eq u w)" for u w
    by (simp add: Option_equals_def Option_isSome_def Option_unwrap_def)
  have "strict_eq Undefined b = (b = Undefined)" "strict_eq Null b = (b = Null)"
    "strict_eq (Boolean c) b = (b = Boolean c)" "strict_eq (BigInt n) b = (b = BigInt n)"
    "strict_eq (String s) b = (b = String s)" "strict_eq (Symbol k) b = (b = Symbol k)"
    by (cases b; auto)+
  moreover have "strict_eq (Number x) b =
       (case b of
          Number y \<Rightarrow>
            x \<noteq> NaN \<and> y \<noteq> NaN
            \<and> (x = y \<or> (x = NegZero \<and> y = Finite 0) \<or> (x = Finite 0 \<and> y = NegZero))
        | _ \<Rightarrow> False)"
    by (cases b) (simp_all add: number_equal_iff)
  moreover have "strict_eq (Object r1 p1) b = (case b of Object r2 p2 \<Rightarrow> r1 = r2 | _ \<Rightarrow> False)"
    by (cases b) simp_all
  moreover have "Option_equals None_o None_o = Inr True"
    by (simp add: Option_equals_def Option_isNone_def)
  ultimately show ?thesis
    by (simp only: e simp_thms)
qed

text \<open>
  C10 as stated says that two present containers are equal if and only if they wrap the
  same primitive value or the same object reference. Two present containers of
  \<^verbatim>\<open>NaN\<close> wrap the same primitive value and are not equal; the present containers of
  \<^verbatim>\<open>-0\<close> and of \<^verbatim>\<open>0\<close> wrap two different primitive values and are equal.
\<close>

theorem equals_NaN_counterexample:
  "Option_equals (Some_o (Number NaN)) (Some_o (Number NaN)) = Inr False
   \<and> Option_equals (Some_o (Number NegZero)) (Some_o (Number (Finite 0))) = Inr True
   \<and> Number NegZero \<noteq> Number (Finite 0)"
  by (simp add: Option_equals_def Option_isSome_def Option_unwrap_def)

subsection \<open>Result container\<close>

text \<open>
  C5. For every value \<open>v\<close> and error \<open>e\<close>: the success result of \<open>v\<close> satisfies
  \<^verbatim>\<open>isOk\<close>, and \<^verbatim>\<open>getErr\<close> on it throws the error with the fixed message of
  \<^verbatim>\<open>Ok.getErr\<close> (the failure the specification calls InvalidStateError); the failure
  result of \<open>e\<close> returns \<open>e\<close> from \<^verbatim>\<open>getErr\<close>, and \<^verbatim>\<open>unwrap\<close> on it throws the error
  with the fixed message of \<^verbatim>\<open>Err.unwrap\<close> (the failure the specification calls
  EmptyValueError).
\<close>

theorem Result_getErr_unwrap:
  "Result_isOk (Ok v :: ('a, 'e) Result)
   \<and> Result_getErr (Ok v :: ('a, 'e) Result) = Inl (Error ''Called getErr on an Ok value.'')
   \<and> Result_getErr (Err e :: ('a, 'e) Result) = Inr e
   \<and> Result_unwrap (Err e :: ('a, 'e) Result) = Inl (Error ''Called unwrap on an error.'')"
  by (simp add: Result_isOk_def Result_getErr_def Result_unwrap_def)

text \<open>
  C6. For every failure result of \<open>e\<close>, every function \<open>fn\<close> and every state \<open>s\<close> of
  the caller, \<^verbatim>\<open>map(fn)\<close> returns the failure result of \<open>e\<close> and leaves the state as
  it was, whatever \<open>fn\<close> would throw or change if it were called; likewise
  \<^verbatim>\<open>flatMap\<close>.
\<close>

theorem Result_map_Err:
  "Result_map fn (Err e) s = (Inr (Err e), s)
   \<and> Result_flatMap fn' (Err e) s = (Inr (Err e), s)"
  by (simp add: Result_map_def Result_flatMap_def Result_getErr_def)

subsection \<open>Sequence helper\<close>

text \<open>
  C2, as the code has it. If in a store every sequence refers to an array of the store
  and every cursor is in \<open>[0, length]\<close> of its backing array, then that is so after any
  sequence of calls, on any of the sequences, in which \<^verbatim>\<open>next\<close> is only called when
  \<^verbatim>\<open>hasNext()\<close> is true. After any sequence of calls
  every array that existed before is as it was, and with it the backing collection of
  every sequence. Every transformation (\<^verbatim>\<open>map\<close>, \<^verbatim>\<open>filter\<close>, \<^verbatim>\<open>skip\<close>, \<^verbatim>\<open>take\<close>,
  \<^verbatim>\<open>chain\<close>, \<^verbatim>\<open>enumerate\<close>, \<^verbatim>\<open>zip\<close>, \<^verbatim>\<open>chainWith\<close>) returns a new sequence with
  cursor 0 over a new array and changes no array and no sequence. \<^verbatim>\<open>skipWhile\<close> and
  \<^verbatim>\<open>takeWhile\<close> do not return when the predicate is true on every element and on
  \<^verbatim>\<open>undefined\<close>, and otherwise return such a new sequence; so does \<^verbatim>\<open>range\<close> when
  it returns. \<^verbatim>\<open>from\<close> changes no array and no sequence and returns a new sequence
  with cursor 0 whose backing collection is the very array it is given: \<^verbatim>\<open>collect()\<close>
  on it returns the reference to that array.
\<close>

theorem cursor_bounded_when_guarded:
  "(well_formed st \<and> cursors_in_range st \<and> guarded ts cs st \<longrightarrow>
      (\<exists>st'. run_o ts cs st = Some st' \<and> well_formed st' \<and> cursors_in_range st'))
   \<and> (run_o ts cs st = Some st' \<longrightarrow> take (length (arrays st)) (arrays st') = arrays st)
   \<and> (well_formed st \<and> this < length (iterators st) \<and> run_o ts cs st = Some st' \<longrightarrow>
        this_items st' this = this_items st this)
   \<and> new_sequence st (Iterator_map_o this fn st)
   \<and> new_sequence st (Iterator_filter_o this p st)
   \<and> new_sequence st (Iterator_skip_o this n st)
   \<and> new_sequence st (Iterator_take_o this n st)
   \<and> new_sequence st (Iterator_chain_o this g st)
   \<and> new_sequence st (Iterator_enumerate_o this st)
   \<and> new_sequence st (Iterator_zip_o this other st)
   \<and> new_sequence st (Iterator_chainWith_o this other st)
   \<and> (if q Undefined_e \<and> list_all q (this_items st this)
       then Iterator_skipWhile_o this q st = None \<and> Iterator_takeWhile_o this q st = None
       else (\<exists>res. Iterator_skipWhile_o this q st = Some res \<and> new_sequence st res)
            \<and> (\<exists>res. Iterator_takeWhile_o this q st = Some res \<and> new_sequence st res))
   \<and> (case Iterator_range_o start fin st of None \<Rightarrow> True | Some res \<Rightarrow> new_sequence st res)
   \<and> arrays (snd (Iterator_from_o a st)) = arrays st
   \<and> take (length (iterators st)) (iterators (snd (Iterator_from_o a st))) = iterators st
   \<and> this_index (snd (Iterator_from_o a st)) (fst (Iterator_from_o a st)) = 0
   \<and> Iterator_collect_o (fst (Iterator_from_o a st)) (snd (Iterator_from_o a st)) =
       (a, snd (Iterator_from_o a st))"
proof -
  have 1: "\<exists>st'. run_o ts cs st = Some st' \<and> well_formed st' \<and> cursors_in_range st'"
    if "well_formed st" and "cursors_in_range st" and "guarded ts cs st"
    using that by (rule guarded_run)
  have 2: "take (length (arrays st)) (arrays st') = arrays st" if "run_o ts cs st = Some st'"
    using run_keeps [OF that] by (simp add: keeps_def)
  have 3: "this_items st' this = this_items st this"
    if "well_formed st" and "this < length (iterators st)" and "run_o ts cs st = Some st'"
    using run_keeps [OF that(3)] that(1,2) by (rule keeps_this_items)
  have 4: "arrays (snd (Iterator_from_o a st)) = arrays st"
    "take (length (iterators st)) (iterators (snd (Iterator_from_o a st))) = iterators st"
    "this_index (snd (Iterator_from_o a st)) (fst (Iterator_from_o a st)) = 0"
    by (simp_all add: Iterator_from_o_def new_Iterator_o_def this_index_def)
  have 5: "Iterator_collect_o (fst (Iterator_from_o a st)) (snd (Iterator_from_o a st)) =
           (a, snd (Iterator_from_o a st))"
    by (simp add: Iterator_collect_o_def Iterator_from_o_def new_Iterator_o_def)
  show ?thesis
    using 1 2 3 4 5 transformations_new [where st = st and this = this]
      pairings_new [where st = st and this = this]
      scans_new [where q = q and st = st and this = this]
      range_new [where start = start and fin = fin and st = st]
    by (intro conjI impI) (simp_all only: simp_thms)
qed

text \<open>
  The hypotheses of C2 at the run above: the cursors are in range before and after, the
  first array and the backing collection of the first sequence are as they were.
\<close>

theorem cursor_bounded_when_guarded_witness:
  "well_formed \<lparr>arrays = [[Value (1 :: nat), Value 2]], iterators = [\<lparr>items_o = 0, index_o = 0\<rparr>]\<rparr>
   \<and> cursors_in_range
        \<lparr>arrays = [[Value (1 :: nat), Value 2]], iterators = [\<lparr>items_o = 0, index_o = 0\<rparr>]\<rparr>
   \<and> guarded (\<lambda>i. [])
        [Next_o 0, Map_o 0 (\<lambda>v. v), Next_o 0, Reset_o 0, Next_o 1, From_o 0]
        \<lparr>arrays = [[Value (1 :: nat), Value 2]], iterators = [\<lparr>items_o = 0, index_o = 0\<rparr>]\<rparr>
   \<and> run_o (\<lambda>i. [])
        [Next_o 0, Map_o 0 (\<lambda>v. v), Next_o 0, Reset_o 0, Next_o 1, From_o 0]
        \<lparr>arrays = [[Value (1 :: nat), Value 2]], iterators = [\<lparr>items_o = 0, index_o = 0\<rparr>]\<rparr> =
      Some \<lparr>arrays = [[Value 1, Value 2], [Value 1, Value 2]],
            iterators = [\<lparr>items_o = 0, index_o = 0\<rparr>, \<lparr>items_o = 1, index_o = 1\<rparr>,
                         \<lparr>items_o = 0, index_o = 0\<rparr>]\<rparr>
   \<and> cursors_in_range
        \<lparr>arrays = [[Value (1 :: nat), Value 2], [Value 1, Value 2]],
         iterators = [\<lparr>items_o = 0, index_o = 0\<rparr>, \<lparr>items_o = 1, index_o = 1\<rparr>,
                      \<lparr>items_o = 0, index_o = 0\<rparr>]\<rparr>
   \<and> (0 :: nat) < length (iterators
        \<lparr>arrays = [[Value (1 :: nat), Value 2]], iterators = [\<lparr>items_o = 0, index_o = 0\<rparr>]\<rparr>)
   \<and> this_items
        \<lparr>arrays = [[Value (1 :: nat), Value 2], [Value 1, Value 2]],
         iterators = [\<lparr>items_o = 0, index_o = 0\<rparr>, \<lparr>items_o = 1, index_o = 1\<rparr>,
                      \<lparr>items_o = 0, index_o = 0\<rparr>]\<rparr> 0 =
      [Value 1, Value 2]"
  using cursor_bounded_when_guarded
          [where st = "\<lparr>arrays = [[Value (1 :: nat), Value 2]],
                         iterators = [\<lparr>items_o = 0, index_o = 0\<rparr>]\<rparr>"
             and ts = "\<lambda>i. []"
             and cs = "[Next_o 0, Map_o 0 (\<lambda>v. v), Next_o 0, Reset_o 0, Next_o 1, From_o 0]"
             and st' = "\<lparr>arrays = [[Value 1, Value 2], [Value 1, Value 2]],
                          iterators = [\<lparr>items_o = 0, index_o = 0\<rparr>, \<lparr>items_o = 1, index_o = 1\<rparr>,
                                       \<lparr>items_o = 0, index_o = 0\<rparr>]\<rparr>"
             and this = 0 and fn = "\<lambda>v. v" and p = "\<lambda>v. True" and n = 0
             and g = "\<lambda>v. [v]" and other = 0 and q = "\<lambda>v. v = Value 1"
             and start = 0 and fin = None and a = 0]
        example_run example_guarded
  by (simp add: well_formed_def cursors_in_range_def this_items_def)

text \<open>
  C2 as stated says that the cursor is in \<open>[0, length]\<close> after any sequence of
  operations. One call of \<^verbatim>\<open>next\<close> on the sequence over the empty list leaves the
  cursor at 1, above the length 0.
\<close>

theorem next_past_end_counterexample:
  "\<not> index (run [Next] (Iterator_from ([] :: int list)))
       \<le> length (items (run [Next] (Iterator_from ([] :: int list))))"
  by (simp add: Iterator_from_def new_Iterator_def Iterator_next_def)

text \<open>
  C3, as the code has it. \<^verbatim>\<open>zip\<close> produces one pair for every element of the
  receiver: the pair at index \<open>i\<close> holds the receiver's element at \<open>i\<close> and the result
  of reading the other sequence at \<open>i\<close>, which is \<^verbatim>\<open>undefined\<close> from the other
  sequence's length on. So the number of pairs is the length of the receiver, and the
  first \<open>min\<close> of the two lengths many pairs are the index-wise pairs of elements.
  \<^verbatim>\<open>chainWith\<close> and \<^verbatim>\<open>collectWith\<close> produce the same pairs, \<^verbatim>\<open>collectInto\<close> applies
  its function to each of them, and none of the four can throw. The sequences over
  \<open>[1, 2]\<close> and \<open>['a', 'b']\<close> zip to \<open>[[1, 'a'], [2, 'b']]\<close>.
\<close>

theorem pairing_by_receiver_index:
  "Iterator_collect (Iterator_zip this other) =
     zip (items this)
       (map Some (items other) @ replicate (length (items this) - length (items other)) None)
   \<and> Iterator_collect (Iterator_chainWith this other) = Iterator_collect (Iterator_zip this other)
   \<and> Iterator_collectWith this other = Iterator_collect (Iterator_zip this other)
   \<and> Iterator_collectInto this other fn =
       map (\<lambda>(x, y). fn x y) (Iterator_collect (Iterator_zip this other))
   \<and> length (Iterator_collect (Iterator_zip this other)) = length (items this)
   \<and> take (min (length (items this)) (length (items other)))
        (Iterator_collect (Iterator_zip this other)) =
       zip (items this) (map Some (items other))
   \<and> Iterator_collect (Iterator_zip (Iterator_from [1, 2 :: int]) (Iterator_from [''a'', ''b''])) =
       [(1, Some ''a''), (2, Some ''b'')]"
  by (simp add: Iterator_collect_def Iterator_zip_def Iterator_chainWith_def
        Iterator_collectWith_def Iterator_collectInto_def Iterator_from_def new_Iterator_def
        forEach_indexed_push zip_padded take_min_zip_padded map_indexed_array_get)

text \<open>
  C3 as stated says that \<^verbatim>\<open>zip\<close> produces exactly \<open>min\<close> of the two lengths many
  pairs. Zipping the sequence over \<open>[1, 2, 3]\<close> with the sequence over \<open>['a']\<close> gives
  three pairs, not one.
\<close>

theorem pairing_length_counterexample:
  "length (Iterator_collect (Iterator_zip (Iterator_from [1, 2, 3 :: int]) (Iterator_from [''a''])))
   \<noteq> min (length [1, 2, 3 :: int]) (length [''a''])"
  by (simp add: Iterator_collect_def Iterator_zip_def Iterator_from_def new_Iterator_def zip_padded)

text \<open>
  C7. When some element of the backing collection fails the predicate, \<^verbatim>\<open>skipWhile\<close>
  returns, and the sequence it returns starts at the first element that fails the
  predicate and holds everything from there on; when the very first element fails the
  predicate, nothing is skipped.
\<close>

theorem skipWhile_first_failing:
  assumes "\<exists>x \<in> set (items this). \<not> predicate (Some x)"
  shows "Iterator_skipWhile this predicate =
           Some (new_Iterator (dropWhile (\<lambda>x. predicate (Some x)) (items this)))
         \<and> (\<not> predicate (Some (hd (items this))) \<longrightarrow>
              Iterator_skipWhile this predicate = Some (new_Iterator (items this)))"
proof -
  have ne: "items this \<noteq> []" using assms by auto
  have r: "Iterator_skipWhile this predicate =
           Some (new_Iterator (dropWhile (\<lambda>x. predicate (Some x)) (items this)))"
    using assms by (simp add: skipWhile_returns)
  have "dropWhile (\<lambda>x. predicate (Some x)) (items this) = items this"
    if "\<not> predicate (Some (hd (items this)))"
    using that ne by (cases "items this") simp_all
  with r show ?thesis by simp
qed

text \<open>
  The example of C7: over \<open>[1, 2, 3, 4]\<close> with the predicate \<open>x < 3\<close> (false on
  \<^verbatim>\<open>undefined\<close>, as \<^verbatim>\<open>undefined < 3\<close> is) \<^verbatim>\<open>skipWhile\<close> collects to \<open>[3, 4]\<close>; over
  \<open>[5, 1, 2]\<close> the first element fails the predicate and the whole sequence is
  returned.
\<close>

theorem skipWhile_first_failing_witness:
  "(\<exists>x \<in> set (items (Iterator_from [1, 2, 3, 4 :: int])).
      \<not> (case Some x of None \<Rightarrow> False | Some y \<Rightarrow> y < 3))
   \<and> map_option Iterator_collect
        (Iterator_skipWhile (Iterator_from [1, 2, 3, 4 :: int])
           (\<lambda>v. case v of None \<Rightarrow> False | Some y \<Rightarrow> y < 3)) =
      Some [3, 4]
   \<and> (\<exists>x \<in> set (items (Iterator_from [5, 1, 2 :: int])).
        \<not> (case Some x of None \<Rightarrow> False | Some y \<Rightarrow> y < 3))
   \<and> \<not> (case Some (hd (items (Iterator_from [5, 1, 2 :: int]))) of None \<Rightarrow> False | Some y \<Rightarrow> y < 3)
   \<and> map_option Iterator_collect
        (Iterator_skipWhile (Iterator_from [5, 1, 2 :: int])
           (\<lambda>v. case v of None \<Rightarrow> False | Some y \<Rightarrow> y < 3)) =
      Some [5, 1, 2]"
  using skipWhile_first_failing
          [of "Iterator_from [1, 2, 3, 4 :: int]" "\<lambda>v. case v of None \<Rightarrow> False | Some y \<Rightarrow> y < 3"]
        skipWhile_first_failing
          [of "Iterator_from [5, 1, 2 :: int]" "\<lambda>v. case v of None \<Rightarrow> False | Some y \<Rightarrow> y < 3"]
  by (simp add: Iterator_from_def new_Iterator_def Iterator_collect_def)




text \<open>
  C9. For every backing collection \<open>xs\<close> and every \<open>k\<close>, \<open>k\<close> calls of \<^verbatim>\<open>next\<close> on the
  fresh sequence over \<open>xs\<close> put the cursor at \<open>k\<close>, and on the sequence so advanced
  \<^verbatim>\<open>map\<close>, \<^verbatim>\<open>filter\<close>, \<^verbatim>\<open>skip\<close>, \<^verbatim>\<open>take\<close>, \<^verbatim>\<open>collect\<close> (with and without a function),
  \<^verbatim>\<open>reduce\<close>, \<^verbatim>\<open>count\<close> (with and without a predicate), \<^verbatim>\<open>any\<close> and \<^verbatim>\<open>all\<close>
  return what they return on the fresh sequence.
\<close>

theorem results_independent_of_cursor:
  "index (run (replicate k Next) (Iterator_from xs)) = k
   \<and> Iterator_map (run (replicate k Next) (Iterator_from xs)) fn = Iterator_map (Iterator_from xs) fn
   \<and> Iterator_filter (run (replicate k Next) (Iterator_from xs)) p = Iterator_filter (Iterator_from xs) p
   \<and> Iterator_skip (run (replicate k Next) (Iterator_from xs)) n = Iterator_skip (Iterator_from xs) n
   \<and> Iterator_take (run (replicate k Next) (Iterator_from xs)) n = Iterator_take (Iterator_from xs) n
   \<and> Iterator_collect (run (replicate k Next) (Iterator_from xs)) = Iterator_collect (Iterator_from xs)
   \<and> Iterator_collect_map (run (replicate k Next) (Iterator_from xs)) g =
       Iterator_collect_map (Iterator_from xs) g
   \<and> Iterator_reduce (run (replicate k Next) (Iterator_from xs)) f z =
       Iterator_reduce (Iterator_from xs) f z
   \<and> Iterator_count (run (replicate k Next) (Iterator_from xs)) c = Iterator_count (Iterator_from xs) c
   \<and> Iterator_any (run (replicate k Next) (Iterator_from xs)) p = Iterator_any (Iterator_from xs) p
   \<and> Iterator_all (run (replicate k Next) (Iterator_from xs)) p = Iterator_all (Iterator_from xs) p"
  by (simp add: index_run_Next items_run Iterator_from_def new_Iterator_def Iterator_map_def
        Iterator_filter_def Iterator_skip_def Iterator_take_def Iterator_collect_def
        Iterator_collect_map_def Iterator_reduce_def Iterator_count_def Iterator_any_def
        Iterator_all_def split: option.split)

end
